theory Spec2Isabelle
  imports Complex_Main
begin

section \<open>Common Python idioms\<close>

text \<open>
  Floating-point numbers of the source are modelled by the reals: every comparison and
  arithmetic expression is the one the source writes, read exactly. The exception is
  \<^verbatim>\<open>set_attack_release\<close>, where the rounding of the floating-point product changes the
  truncated tick count on everyday inputs: there the double-precision operations are
  modelled.
\<close>

datatype error = IndexError | ZeroDivisionError

text \<open>\<^verbatim>\<open>collections.deque(maxlen=n).append(x)\<close>: the oldest entries fall out at the left.\<close>

definition deque_append :: "nat \<Rightarrow> 'a list \<Rightarrow> 'a \<Rightarrow> 'a list" where
  "deque_append maxlen xs x = (let ys = xs @ [x] in drop (length ys - maxlen) ys)"

text \<open>\<^verbatim>\<open>xs[i]\<close> for a Python int \<open>i\<close>: negative indices count from the end.\<close>

definition py_index :: "'a list \<Rightarrow> int \<Rightarrow> error + 'a" where
  "py_index xs i =
     (if 0 \<le> i \<and> i < int (length xs) then Inr (xs ! nat i)
      else if i < 0 \<and> - int (length xs) \<le> i then Inr (xs ! nat (int (length xs) + i))
      else Inl IndexError)"

text \<open>\<^verbatim>\<open>int(x)\<close> of a float: truncation toward zero.\<close>

definition py_int :: "real \<Rightarrow> int" where
  "py_int x = (if 0 \<le> x then \<lfloor>x\<rfloor> else \<lceil>x\<rceil>)"

text \<open>\<^verbatim>\<open>xs[a:b]\<close> for indices \<open>0 \<le> a\<close>, \<open>0 \<le> b\<close>.\<close>

definition py_slice :: "'a list \<Rightarrow> int \<Rightarrow> int \<Rightarrow> 'a list" where
  "py_slice xs a b = take (nat b - nat a) (drop (nat a) xs)"


text \<open>
  Double-precision arithmetic, where a truncation makes the rounding of a product
  visible. \<open>to_double\<close> rounds a real to the nearest double (53-bit significand, ties
  to even, subnormals below \<open>2^-1022\<close>); overflow to infinity is not modelled.
  \<^verbatim>\<open>x / y\<close> and \<^verbatim>\<open>x * y\<close> on doubles are the exact results rounded once.
\<close>

definition round_half_even :: "real \<Rightarrow> int" where
  "round_half_even y =
     (if y - of_int \<lfloor>y\<rfloor> < 1 / 2 then \<lfloor>y\<rfloor>
      else if 1 / 2 < y - of_int \<lfloor>y\<rfloor> then \<lfloor>y\<rfloor> + 1
      else if even \<lfloor>y\<rfloor> then \<lfloor>y\<rfloor> else \<lfloor>y\<rfloor> + 1)"

text \<open>The spacing of the doubles around \<open>x\<close>.\<close>

definition double_ulp :: "real \<Rightarrow> real" where
  "double_ulp x = 2 powr (real_of_int (max (- 1022) \<lfloor>log 2 \<bar>x\<bar>\<rfloor>) - 52)"

definition to_double :: "real \<Rightarrow> real" where
  "to_double x =
     (if x = 0 then 0
      else real_of_int (round_half_even (x / double_ulp x)) * double_ulp x)"

definition float_div :: "real \<Rightarrow> real \<Rightarrow> real" where
  "float_div x y = to_double (x / y)"

definition float_mul :: "real \<Rightarrow> real \<Rightarrow> real" where
  "float_mul x y = to_double (x * y)"


section \<open>transient\_detector.py: TransientDetector\<close>

type_synonym callback = nat

datatype label = Energy | Spectral_flux | Band int | Kick | Snare | Hihat

text \<open>One call \<^verbatim>\<open>callback(strength, detection_type)\<close> made by \<^verbatim>\<open>_fire_callbacks\<close>.\<close>

type_synonym invocation = "callback \<times> real \<times> label"

record detector =
  threshold :: real
  sensitivity :: real
  min_interval_ms :: real
  last_trigger_time :: real
  is_triggered :: bool
  current_energy :: real
  energy_history :: "real list"
  adaptive_threshold :: real
  previous_spectrum :: "real list"
  spectral_flux :: real
  flux_history :: "real list"
  on_transient_callbacks :: "callback list"
  total_triggers :: int
  last_trigger_strength :: real

record detection_result =
  triggered :: bool
  strength :: real
  time_stamp :: real
  result_threshold :: real

text \<open>\<^verbatim>\<open>TransientDetector.__init__(threshold, sensitivity, min_interval_ms)\<close>.\<close>

definition init_detector :: "real \<Rightarrow> real \<Rightarrow> real \<Rightarrow> detector" where
  "init_detector thr sens interval =
     \<lparr> threshold = thr, sensitivity = sens, min_interval_ms = interval,
       last_trigger_time = 0, is_triggered = False,
       current_energy = 0, energy_history = [], adaptive_threshold = thr,
       previous_spectrum = [], spectral_flux = 0, flux_history = [],
       on_transient_callbacks = [],
       total_triggers = 0, last_trigger_strength = 0 \<rparr>"

text \<open>
  \<^verbatim>\<open>_get_detection_result\<close>; \<open>stamp\<close> is the reading of \<^verbatim>\<open>time.time()\<close> taken there.
\<close>

definition get_detection_result :: "detector \<Rightarrow> bool \<Rightarrow> real \<Rightarrow> real \<Rightarrow> detection_result" where
  "get_detection_result s trig str stamp =
     \<lparr> triggered = trig, strength = str, time_stamp = stamp,
       result_threshold = adaptive_threshold s \<rparr>"

text \<open>
  \<^verbatim>\<open>_fire_callbacks\<close>: every registered callback is called once, in order; an exception
  of a callback is caught and printed. The model records the calls made. Callbacks are
  taken not to touch the detector.
\<close>

definition fire_callbacks :: "detector \<Rightarrow> real \<Rightarrow> label \<Rightarrow> invocation list" where
  "fire_callbacks s str lab = map (\<lambda>cb. (cb, str, lab)) (on_transient_callbacks s)"

text \<open>
  The block \<^verbatim>\<open>if triggered: ...\<close> shared by all variants, and the final
  \<^verbatim>\<open>return self._get_detection_result(triggered, strength)\<close>.
\<close>

definition finish :: "detector \<Rightarrow> bool \<Rightarrow> real \<Rightarrow> label \<Rightarrow> real \<Rightarrow> real
    \<Rightarrow> detection_result \<times> invocation list \<times> detector" where
  "finish s trig str lab now stamp =
     (if trig then
        (let s' = s\<lparr> last_trigger_time := now,
                     total_triggers := total_triggers s + 1,
                     last_trigger_strength := str \<rparr>
         in (get_detection_result s' trig str stamp, fire_callbacks s' str lab, s'))
      else (get_detection_result s trig str stamp, [], s))"

text \<open>
  In every variant \<open>now\<close> is the value of \<^verbatim>\<open>time.time() * 1000\<close> read by the call and
  \<open>stamp\<close> the later reading that goes into the result.
\<close>

definition detect_energy_based :: "real \<Rightarrow> real \<Rightarrow> real \<Rightarrow> real \<Rightarrow> detector
    \<Rightarrow> detection_result \<times> invocation list \<times> detector" where
  "detect_energy_based rms_level peak_level now stamp s =
     (if now - last_trigger_time s < min_interval_ms s
      then (get_detection_result s False 0 stamp, [], s)
      else
        (let s1 = s\<lparr> current_energy := peak_level,
                     energy_history := deque_append 60 (energy_history s) peak_level \<rparr>;
             s2 = (if length (energy_history s1) > 10
                   then s1\<lparr> adaptive_threshold :=
                          sum_list (energy_history s1) / real (length (energy_history s1))
                          + threshold s1 * sensitivity s1 \<rparr>
                   else s1);
             trig = (peak_level > adaptive_threshold s2);
             str = (if trig then peak_level / max 0.01 (adaptive_threshold s2) else 0)
         in finish s2 trig str Energy now stamp))"

text \<open>The loop that sums the positive differences, over \<^verbatim>\<open>range(min(len, len))\<close>.\<close>

definition flux_loop :: "real list \<Rightarrow> real list \<Rightarrow> real" where
  "flux_loop frequency_data previous =
     fold (\<lambda>(x, p) flux. if x - p > 0 then flux + (x - p) else flux)
       (zip frequency_data previous) 0"

definition detect_spectral_flux :: "real list \<Rightarrow> real \<Rightarrow> real \<Rightarrow> detector
    \<Rightarrow> detection_result \<times> invocation list \<times> detector" where
  "detect_spectral_flux frequency_data now stamp s =
     (if now - last_trigger_time s < min_interval_ms s
      then (get_detection_result s False 0 stamp, [], s)
      else if previous_spectrum s = []
      then (let s' = s\<lparr> previous_spectrum := frequency_data \<rparr>
            in (get_detection_result s' False 0 stamp, [], s'))
      else
        (let flux = flux_loop frequency_data (previous_spectrum s);
             s1 = s\<lparr> spectral_flux := flux,
                     flux_history := deque_append 60 (flux_history s) flux \<rparr>;
             flux_threshold =
               (if length (flux_history s1) > 10
                then sum_list (flux_history s1) / real (length (flux_history s1))
                     * (1 + sensitivity s1)
                else threshold s1);
             trig = (flux > flux_threshold);
             str = (if trig then flux / max 0.01 flux_threshold else 0)
         in case finish s1 trig str Spectral_flux now stamp of
              (r, fired, s2) \<Rightarrow>
                (let s3 = s2\<lparr> previous_spectrum := frequency_data \<rparr>
                 in (get_detection_result s3 trig str stamp, fired, s3))))"

text \<open>
  The tail shared by the band, kick, snare and hi-hat variants: append the monitored
  energy, compute the local threshold, decide.
\<close>

definition band_decide :: "real \<Rightarrow> label \<Rightarrow> real \<Rightarrow> real \<Rightarrow> detector
    \<Rightarrow> detection_result \<times> invocation list \<times> detector" where
  "band_decide energy lab now stamp s =
     (let s1 = s\<lparr> energy_history := deque_append 60 (energy_history s) energy \<rparr>;
          band_threshold =
            (if length (energy_history s1) > 10
             then sum_list (energy_history s1) / real (length (energy_history s1))
                  + threshold s1 * sensitivity s1
             else threshold s1);
          trig = (energy > band_threshold);
          str = (if trig then energy / max 0.01 band_threshold else 0)
      in finish s1 trig str lab now stamp)"

definition detect_band_transient :: "real list \<Rightarrow> int \<Rightarrow> real \<Rightarrow> real \<Rightarrow> detector
    \<Rightarrow> error + detection_result \<times> invocation list \<times> detector" where
  "detect_band_transient band_data band_index now stamp s =
     (if now - last_trigger_time s < min_interval_ms s
      then Inr (get_detection_result s False 0 stamp, [], s)
      else if band_index \<ge> int (length band_data)
      then Inr (get_detection_result s False 0 stamp, [], s)
      else case py_index band_data band_index of
             Inl e \<Rightarrow> Inl e
           | Inr band_energy \<Rightarrow> Inr (band_decide band_energy (Band band_index) now stamp s))"

definition detect_kick :: "real list \<Rightarrow> real \<Rightarrow> real \<Rightarrow> detector
    \<Rightarrow> detection_result \<times> invocation list \<times> detector" where
  "detect_kick band_data now stamp s =
     (if length band_data < 2
      then (get_detection_result s False 0 stamp, [], s)
      else
        (let kick_energy = (band_data ! 0 + band_data ! 1) / 2
         in if now - last_trigger_time s < min_interval_ms s
            then (get_detection_result s False 0 stamp, [], s)
            else band_decide kick_energy Kick now stamp s))"

definition detect_snare :: "real list \<Rightarrow> real \<Rightarrow> real \<Rightarrow> detector
    \<Rightarrow> detection_result \<times> invocation list \<times> detector" where
  "detect_snare band_data now stamp s =
     (if length band_data < 4
      then (get_detection_result s False 0 stamp, [], s)
      else
        (let snare_energy = (band_data ! 2 + band_data ! 3) / 2
         in if now - last_trigger_time s < min_interval_ms s
            then (get_detection_result s False 0 stamp, [], s)
            else band_decide snare_energy Snare now stamp s))"

definition detect_hihat :: "real list \<Rightarrow> real \<Rightarrow> real \<Rightarrow> detector
    \<Rightarrow> detection_result \<times> invocation list \<times> detector" where
  "detect_hihat band_data now stamp s =
     (if length band_data < 6
      then (get_detection_result s False 0 stamp, [], s)
      else
        (let hihat_energy = sum_list (drop (length band_data - 2) band_data) / 2
         in if now - last_trigger_time s < min_interval_ms s
            then (get_detection_result s False 0 stamp, [], s)
            else band_decide hihat_energy Hihat now stamp s))"

definition add_callback :: "callback \<Rightarrow> detector \<Rightarrow> detector" where
  "add_callback callback_func s =
     (if callback_func \<notin> set (on_transient_callbacks s)
      then s\<lparr> on_transient_callbacks := on_transient_callbacks s @ [callback_func] \<rparr>
      else s)"

definition remove_callback :: "callback \<Rightarrow> detector \<Rightarrow> detector" where
  "remove_callback callback_func s =
     (if callback_func \<in> set (on_transient_callbacks s)
      then s\<lparr> on_transient_callbacks := remove1 callback_func (on_transient_callbacks s) \<rparr>
      else s)"

definition set_threshold :: "real \<Rightarrow> detector \<Rightarrow> detector" where
  "set_threshold thr s = s\<lparr> threshold := max 0 (min 1 thr) \<rparr>"

definition set_sensitivity :: "real \<Rightarrow> detector \<Rightarrow> detector" where
  "set_sensitivity sens s = s\<lparr> sensitivity := max 0 (min 1 sens) \<rparr>"

definition set_min_interval :: "real \<Rightarrow> detector \<Rightarrow> detector" where
  "set_min_interval interval_ms s = s\<lparr> min_interval_ms := max 0 interval_ms \<rparr>"

text \<open>\<^verbatim>\<open>TransientDetector.reset\<close>.\<close>

definition reset_detector :: "detector \<Rightarrow> detector" where
  "reset_detector s =
     s\<lparr> last_trigger_time := 0, is_triggered := False, current_energy := 0,
        energy_history := [], flux_history := [], previous_spectrum := [],
        total_triggers := 0, last_trigger_strength := 0 \<rparr>"

subsection \<open>Evaluations of any variant\<close>

datatype call =
    Energy_based real real
  | Flux "real list"
  | Band_transient "real list" int
  | Kick_call "real list"
  | Snare_call "real list"
  | Hihat_call "real list"

fun evaluate :: "call \<Rightarrow> real \<Rightarrow> real \<Rightarrow> detector
    \<Rightarrow> error + detection_result \<times> invocation list \<times> detector" where
  "evaluate (Energy_based rms_level peak_level) now stamp s =
     Inr (detect_energy_based rms_level peak_level now stamp s)"
| "evaluate (Flux frequency_data) now stamp s =
     Inr (detect_spectral_flux frequency_data now stamp s)"
| "evaluate (Band_transient band_data band_index) now stamp s =
     detect_band_transient band_data band_index now stamp s"
| "evaluate (Kick_call band_data) now stamp s = Inr (detect_kick band_data now stamp s)"
| "evaluate (Snare_call band_data) now stamp s = Inr (detect_snare band_data now stamp s)"
| "evaluate (Hihat_call band_data) now stamp s = Inr (detect_hihat band_data now stamp s)"

text \<open>
  A run of evaluations, each with its two clock readings; an exception ends the run.
\<close>

fun run :: "(call \<times> real \<times> real) list \<Rightarrow> detector
    \<Rightarrow> error + (detection_result \<times> invocation list) list \<times> detector" where
  "run [] s = Inr ([], s)"
| "run ((c, now, stamp) # rest) s =
     (case evaluate c now stamp s of
        Inl e \<Rightarrow> Inl e
      | Inr (r, fired, s') \<Rightarrow>
          (case run rest s' of
             Inl e \<Rightarrow> Inl e
           | Inr (rs, s'') \<Rightarrow> Inr ((r, fired) # rs, s'')))"


section \<open>audio\_analyzer.py: AudioAnalyzer\<close>

text \<open>
  A CHOP is modelled by its channels, each the list of its samples, all of one length:
  \<^verbatim>\<open>numChans\<close> and \<^verbatim>\<open>numSamples\<close> are read off the channels, so that
  \<^verbatim>\<open>chop[0][i]\<close> is in range wherever the source reads it. The absent reference
  \<^verbatim>\<open>None\<close> is \<open>None\<close>.
\<close>

type_synonym chop = "real list list"

definition numChans :: "chop \<Rightarrow> nat" where
  "numChans c = length c"

definition numSamples :: "chop \<Rightarrow> nat" where
  "numSamples c = (case c of [] \<Rightarrow> 0 | ch # _ \<Rightarrow> length ch)"

record analyzer =
  fft_size :: int
  smoothing_time_constant :: real
  frequency_bin_count :: int
  frequency_data :: "real list"
  time_domain_data :: "real list"
  rms_level :: real
  peak_level :: real
  history_size :: nat
  rms_history :: "real list"
  peak_history :: "real list"
  attack_frames :: int
  release_frames :: int
  envelope_value :: real

record band_dict =
  band_8 :: "real list"
  band_16 :: "real list"
  band_32 :: "real list"

record frame =
  frame_frequency_data :: "real list"
  rms :: real
  peak :: real
  envelope :: real
  bands :: band_dict

text \<open>\<^verbatim>\<open>AudioAnalyzer.__init__(fft_size, smoothing_time_constant)\<close>; \<^verbatim>\<open>[0.0] * n\<close> is empty for \<open>n \<le> 0\<close>.\<close>

definition init_analyzer :: "int \<Rightarrow> real \<Rightarrow> analyzer" where
  "init_analyzer fft smoothing =
     \<lparr> fft_size = fft, smoothing_time_constant = smoothing,
       frequency_bin_count = fft div 2,
       frequency_data = replicate (nat (fft div 2)) 0,
       time_domain_data = replicate (nat fft) 0,
       rms_level = 0, peak_level = 0,
       history_size = 60, rms_history = [], peak_history = [],
       attack_frames = 1, release_frames = 30, envelope_value = 0 \<rparr>"

text \<open>\<^verbatim>\<open>_calculate_bands\<close>: the loop over \<^verbatim>\<open>range(num_bands)\<close>, one band value each.\<close>

definition calculate_bands :: "int \<Rightarrow> analyzer \<Rightarrow> real list" where
  "calculate_bands num_bands s =
     (let bin_count = length (frequency_data s)
      in map (\<lambda>band.
           (let start_bin = py_int ((real bin_count / real_of_int num_bands) * real band);
                end_bin = py_int ((real bin_count / real_of_int num_bands) * real (band + 1));
                band_sum = sum_list (py_slice (frequency_data s) start_bin end_bin)
            in if end_bin > start_bin then band_sum / real_of_int (end_bin - start_bin) else 0))
         [0..<nat num_bands])"

definition extract_frequency_bands :: "analyzer \<Rightarrow> band_dict" where
  "extract_frequency_bands s =
     \<lparr> band_8 = calculate_bands 8 s, band_16 = calculate_bands 16 s,
       band_32 = calculate_bands 32 s \<rparr>"

definition get_empty_analysis :: "analyzer \<Rightarrow> frame" where
  "get_empty_analysis s =
     \<lparr> frame_frequency_data = replicate (nat (frequency_bin_count s)) 0,
       rms = 0, peak = 0, envelope = 0,
       bands = \<lparr> band_8 = replicate 8 0, band_16 = replicate 16 0,
                 band_32 = replicate 32 0 \<rparr> \<rparr>"

text \<open>\<^verbatim>\<open>max(...)\<close> over a non-empty sequence.\<close>

definition py_max :: "real list \<Rightarrow> real" where
  "py_max xs = fold max (tl xs) (hd xs)"

text \<open>
  \<^verbatim>\<open>_update_levels\<close>. The divisions by \<^verbatim>\<open>attack_frames\<close> and \<^verbatim>\<open>release_frames\<close> raise
  \<^verbatim>\<open>ZeroDivisionError\<close> when the count is 0.
\<close>

definition update_levels :: "chop \<Rightarrow> analyzer \<Rightarrow> error + analyzer" where
  "update_levels c s =
     (let num_samples = numSamples c;
          samples = map (\<lambda>i. hd c ! i) [0..<num_samples];
          sum_squares = fold (\<lambda>v acc. acc + v * v) samples 0;
          current_rms = (if num_samples > 0 then sqrt (sum_squares / real num_samples) else 0);
          current_peak = (if num_samples > 0 then py_max (map abs samples) else 0);
          env = (if current_peak > envelope_value s
                 then (if attack_frames s = 0 then Inl ZeroDivisionError
                       else Inr (envelope_value s
                              + (current_peak - envelope_value s) / real_of_int (attack_frames s)))
                 else (if release_frames s = 0 then Inl ZeroDivisionError
                       else Inr (envelope_value s
                              - (envelope_value s - current_peak) / real_of_int (release_frames s))))
      in case env of
           Inl e \<Rightarrow> Inl e
         | Inr v \<Rightarrow>
             Inr (s\<lparr> envelope_value := max 0 (min 1 v),
                     rms_level := current_rms, peak_level := current_peak,
                     rms_history := deque_append (history_size s) (rms_history s) current_rms,
                     peak_history := deque_append (history_size s) (peak_history s) current_peak \<rparr>))"

definition analyze_chop :: "chop option \<Rightarrow> analyzer \<Rightarrow> error + frame \<times> analyzer" where
  "analyze_chop chop_reference s =
     (case chop_reference of
        None \<Rightarrow> Inr (get_empty_analysis s, s)
      | Some c \<Rightarrow>
          (let num_samples = numSamples c; num_channels = numChans c
           in if num_samples = 0 \<or> num_channels = 0 then Inr (get_empty_analysis s, s)
              else
                (let raw_frequency_data =
                       map (\<lambda>i. hd c ! i)
                         [0..<nat (min (int num_samples) (frequency_bin_count s))];
                     s1 = s\<lparr> frequency_data :=
                            fold (\<lambda>i fd.
                                if i < length fd
                                then fd[i := smoothing_time_constant s * fd ! i
                                          + (1 - smoothing_time_constant s) * raw_frequency_data ! i]
                                else fd)
                              [0..<length raw_frequency_data] (frequency_data s) \<rparr>
                 in case update_levels c s1 of
                      Inl e \<Rightarrow> Inl e
                    | Inr s2 \<Rightarrow>
                        Inr (\<lparr> frame_frequency_data = frequency_data s2,
                               rms = rms_level s2, peak = peak_level s2,
                               envelope = envelope_value s2,
                               bands = extract_frequency_bands s2 \<rparr>, s2))))"

text \<open>
  \<^verbatim>\<open>get_frequency_range\<close>. Both divisions raise \<^verbatim>\<open>ZeroDivisionError\<close> on a zero divisor.
\<close>

definition get_frequency_range :: "real \<Rightarrow> real \<Rightarrow> real \<Rightarrow> analyzer \<Rightarrow> error + real" where
  "get_frequency_range min_freq max_freq sample_rate s =
     (if fft_size s = 0 then Inl ZeroDivisionError
      else
        (let freq_per_bin = sample_rate / real_of_int (fft_size s)
         in if freq_per_bin = 0 then Inl ZeroDivisionError
            else
              (let start_bin0 = py_int (min_freq / freq_per_bin);
                   end_bin0 = py_int (max_freq / freq_per_bin);
                   start_bin = max 0 (min start_bin0 (int (length (frequency_data s)) - 1));
                   end_bin = max 0 (min end_bin0 (int (length (frequency_data s))))
               in if end_bin \<le> start_bin then Inr 0
                  else Inr (sum_list (py_slice (frequency_data s) start_bin end_bin)
                            / real_of_int (end_bin - start_bin)))))"

text \<open>
  \<^verbatim>\<open>set_attack_release\<close>: \<^verbatim>\<open>(attack_ms / 1000.0) * fps\<close> is a double-precision division
  followed by a double-precision multiplication, and \<^verbatim>\<open>int\<close> truncates the result.
\<close>

definition set_attack_release :: "real \<Rightarrow> real \<Rightarrow> real \<Rightarrow> analyzer \<Rightarrow> analyzer" where
  "set_attack_release attack_ms release_ms fps s =
     s\<lparr> attack_frames := max 1 (py_int (float_mul (float_div attack_ms 1000) fps)),
        release_frames := max 1 (py_int (float_mul (float_div release_ms 1000) fps)) \<rparr>"

text \<open>\<^verbatim>\<open>AudioAnalyzer.reset\<close>.\<close>

definition reset_analyzer :: "analyzer \<Rightarrow> analyzer" where
  "reset_analyzer s =
     s\<lparr> frequency_data := replicate (nat (frequency_bin_count s)) 0,
        time_domain_data := replicate (nat (fft_size s)) 0,
        rms_level := 0, peak_level := 0, envelope_value := 0,
        rms_history := [], peak_history := [] \<rparr>"

text \<open>
  The states an analyzer constructed with \<open>fft\<close> and \<open>smoothing\<close> can be in: those its
  methods lead to.
\<close>

inductive analyzer_reachable :: "int \<Rightarrow> real \<Rightarrow> analyzer \<Rightarrow> bool" for fft smoothing where
  fresh: "analyzer_reachable fft smoothing (init_analyzer fft smoothing)"
| analyzed: "analyzer_reachable fft smoothing s \<Longrightarrow> analyze_chop c s = Inr (f, s')
     \<Longrightarrow> analyzer_reachable fft smoothing s'"
| configured: "analyzer_reachable fft smoothing s
     \<Longrightarrow> analyzer_reachable fft smoothing (set_attack_release attack_ms release_ms fps s)"
| cleared: "analyzer_reachable fft smoothing s
     \<Longrightarrow> analyzer_reachable fft smoothing (reset_analyzer s)"


section \<open>Notions the statements use\<close>

subsection \<open>Detector\<close>

text \<open>
  The states a detector can be in: those its constructor and methods lead to.
\<close>

inductive detector_reachable :: "detector \<Rightarrow> bool" where
  constructed: "detector_reachable (init_detector thr sens interval)"
| evaluated: "detector_reachable s \<Longrightarrow> evaluate c now stamp s = Inr (r, fired, s')
     \<Longrightarrow> detector_reachable s'"
| callback_added: "detector_reachable s \<Longrightarrow> detector_reachable (add_callback cb s)"
| callback_removed: "detector_reachable s \<Longrightarrow> detector_reachable (remove_callback cb s)"
| threshold_set: "detector_reachable s \<Longrightarrow> detector_reachable (set_threshold thr s)"
| sensitivity_set: "detector_reachable s \<Longrightarrow> detector_reachable (set_sensitivity sens s)"
| min_interval_set: "detector_reachable s \<Longrightarrow> detector_reachable (set_min_interval interval s)"
| was_reset: "detector_reachable s \<Longrightarrow> detector_reachable (reset_detector s)"


text \<open>
  The monitored signal of each variant, after the specification's table: the peak level;
  the sum of the positive frame-to-frame differences of the spectrum; the named band;
  the average of bands 0 and 1; of bands 2 and 3; of the last two bands.
\<close>

fun monitored_signal :: "call \<Rightarrow> detector \<Rightarrow> real" where
  "monitored_signal (Energy_based rl pl) s = pl"
| "monitored_signal (Flux fd) s =
     sum_list (map (\<lambda>(x, p). max 0 (x - p)) (zip fd (previous_spectrum s)))"
| "monitored_signal (Band_transient band_data band_index) s =
     band_data ! nat (if band_index < 0 then int (length band_data) + band_index
                      else band_index)"
| "monitored_signal (Kick_call band_data) s = (band_data ! 0 + band_data ! 1) / 2"
| "monitored_signal (Snare_call band_data) s = (band_data ! 2 + band_data ! 3) / 2"
| "monitored_signal (Hihat_call band_data) s =
     (band_data ! (length band_data - 2) + band_data ! (length band_data - 1)) / 2"

text \<open>The history a variant appends to.\<close>

fun history_of :: "call \<Rightarrow> detector \<Rightarrow> real list" where
  "history_of (Flux fd) s = flux_history s"
| "history_of c s = energy_history s"

text \<open>
  The input of a variant is in shape: the band vector is long enough, the band index
  names a band; for the spectral-flux variant a previous spectrum has been seeded.
\<close>

fun in_shape :: "call \<Rightarrow> detector \<Rightarrow> bool" where
  "in_shape (Energy_based rl pl) s = True"
| "in_shape (Flux fd) s = (previous_spectrum s \<noteq> [])"
| "in_shape (Band_transient band_data band_index) s =
     (- int (length band_data) \<le> band_index \<and> band_index < int (length band_data))"
| "in_shape (Kick_call band_data) s = (2 \<le> length band_data)"
| "in_shape (Snare_call band_data) s = (4 \<le> length band_data)"
| "in_shape (Hihat_call band_data) s = (6 \<le> length band_data)"

text \<open>
  An evaluation at clock reading \<open>now\<close> is accepted when the debounce interval does not
  suppress it and its input is in shape.
\<close>

definition accepted :: "call \<Rightarrow> real \<Rightarrow> detector \<Rightarrow> bool" where
  "accepted c now s =
     (\<not> now - last_trigger_time s < min_interval_ms s \<and> in_shape c s)"

definition mean :: "real list \<Rightarrow> real" where
  "mean h = sum_list h / real (length h)"

text \<open>
  The threshold of the specification, from the history \<open>h\<close> that already holds the
  current signal: the base threshold up to 10 entries, then the rolling-mean rule of the
  variant.
\<close>

fun spec_threshold :: "real \<Rightarrow> real \<Rightarrow> call \<Rightarrow> real list \<Rightarrow> real" where
  "spec_threshold thr sens (Flux fd) h =
     (if length h \<le> 10 then thr else mean h * (1 + sens))"
| "spec_threshold thr sens c h =
     (if length h \<le> 10 then thr else mean h + thr * sens)"

text \<open>The energy variant, \<^verbatim>\<open>detect_energy_based\<close>.\<close>

definition is_energy :: "call \<Rightarrow> bool" where
  "is_energy c = (case c of Energy_based rl pl \<Rightarrow> True | _ \<Rightarrow> False)"

text \<open>How often a callback was called among the calls made.\<close>

definition times_invoked :: "callback \<Rightarrow> invocation list \<Rightarrow> nat" where
  "times_invoked cb fired = length (filter (\<lambda>i. fst i = cb) fired)"

subsection \<open>Analyzer\<close>

text \<open>
  The tick count of the specification: \<open>max(1, round(ms/1000 * rate))\<close>, with rounding
  to the nearest integer.
\<close>

definition spec_ticks :: "real \<Rightarrow> real \<Rightarrow> int" where
  "spec_ticks ms rate = max 1 (round (ms / 1000 * rate))"

text \<open>The band boundary of the specification: \<open>floor(binCount/numBands * index)\<close>.\<close>

definition boundary :: "nat \<Rightarrow> nat \<Rightarrow> nat \<Rightarrow> nat" where
  "boundary bin_count num_bands i = nat \<lfloor>real bin_count / real num_bands * real i\<rfloor>"

text \<open>The frame an analysis returns, if it returns.\<close>

definition frame_of :: "error + frame \<times> analyzer \<Rightarrow> frame option" where
  "frame_of res = (case res of Inl e \<Rightarrow> None | Inr (f, s) \<Rightarrow> Some f)"


section \<open>Debounce\<close>

lemma finish_triggered:
  "finish s trig str lab now stamp = (r, fired, s') \<Longrightarrow> triggered r = trig"
  by (auto simp: finish_def get_detection_result_def Let_def split: if_splits)

lemma finish_last_trigger:
  "finish s True str lab now stamp = (r, fired, s') \<Longrightarrow>
   last_trigger_time s' = now \<and> min_interval_ms s' = min_interval_ms s"
  by (auto simp: finish_def Let_def)

lemma band_decide_last_trigger:
  assumes "band_decide e lab now stamp s = (r, fired, s')" and "triggered r"
  shows "last_trigger_time s' = now \<and> min_interval_ms s' = min_interval_ms s"
proof -
  let ?s1 = "s\<lparr> energy_history := deque_append 60 (energy_history s) e \<rparr>"
  obtain trig str where f: "finish ?s1 trig str lab now stamp = (r, fired, s')"
    using assms(1) unfolding band_decide_def Let_def by blast
  from finish_triggered[OF f] assms(2) have "trig" by simp
  with f finish_last_trigger[of ?s1 str lab now stamp r fired s'] show ?thesis by simp
qed

lemma energy_last_trigger:
  assumes "detect_energy_based rl pl now stamp s = (r, fired, s')" and "triggered r"
  shows "last_trigger_time s' = now \<and> min_interval_ms s' = min_interval_ms s"
proof (cases "now - last_trigger_time s < min_interval_ms s")
  case True
  with assms show ?thesis
    by (auto simp: detect_energy_based_def get_detection_result_def)
next
  case False
  then obtain s2 trig str where f: "finish s2 trig str Energy now stamp = (r, fired, s')"
    and m: "min_interval_ms s2 = min_interval_ms s"
    using assms(1) unfolding detect_energy_based_def Let_def
    by (auto split: if_splits)
  from finish_triggered[OF f] assms(2) have "trig" by simp
  with f m finish_last_trigger[of s2 str Energy now stamp r fired s'] show ?thesis by simp
qed

lemma flux_last_trigger:
  assumes "detect_spectral_flux fd now stamp s = (r, fired, s')" and "triggered r"
  shows "last_trigger_time s' = now \<and> min_interval_ms s' = min_interval_ms s"
  using assms
  unfolding detect_spectral_flux_def finish_def get_detection_result_def Let_def
  by (auto split: if_splits prod.splits)

lemma evaluate_last_trigger:
  assumes "evaluate c now stamp s = Inr (r, fired, s')" and "triggered r"
  shows "last_trigger_time s' = now \<and> min_interval_ms s' = min_interval_ms s"
proof (cases c)
  case (Energy_based rl pl)
  with assms energy_last_trigger show ?thesis by auto
next
  case (Flux fd)
  with assms flux_last_trigger show ?thesis by auto
next
  case (Band_transient b i)
  with assms band_decide_last_trigger show ?thesis
    by (auto simp: detect_band_transient_def get_detection_result_def
             split: if_splits sum.splits)
next
  case (Kick_call b)
  with assms band_decide_last_trigger show ?thesis
    by (auto simp: detect_kick_def get_detection_result_def Let_def split: if_splits)
next
  case (Snare_call b)
  with assms band_decide_last_trigger show ?thesis
    by (auto simp: detect_snare_def get_detection_result_def Let_def split: if_splits)
next
  case (Hihat_call b)
  with assms band_decide_last_trigger show ?thesis
    by (auto simp: detect_hihat_def get_detection_result_def Let_def split: if_splits)
qed

lemma evaluate_suppressed:
  assumes "now - last_trigger_time s < min_interval_ms s"
  shows "evaluate c now stamp s = Inr (get_detection_result s False 0 stamp, [], s)"
  using assms
  by (cases c)
     (simp_all add: detect_energy_based_def detect_spectral_flux_def
        detect_band_transient_def detect_kick_def detect_snare_def detect_hihat_def Let_def)

lemma run_suppressed:
  assumes "\<forall>(c, now, stamp) \<in> set tr. now - last_trigger_time s < min_interval_ms s"
  shows "run tr s =
         Inr (map (\<lambda>(c, now, stamp). (get_detection_result s False 0 stamp, [])) tr, s)"
  using assms
proof (induction tr)
  case Nil
  show ?case by simp
next
  case (Cons x tr)
  obtain c now stamp where x: "x = (c, now, stamp)" by (cases x) auto
  from Cons.prems x have "now - last_trigger_time s < min_interval_ms s" by simp
  then have e: "evaluate c now stamp s = Inr (get_detection_result s False 0 stamp, [], s)"
    by (rule evaluate_suppressed)
  from Cons.prems have "\<forall>(c, now, stamp) \<in> set tr. now - last_trigger_time s < min_interval_ms s"
    by simp
  then have "run tr s =
    Inr (map (\<lambda>(c, now, stamp). (get_detection_result s False 0 stamp, [])) tr, s)"
    by (rule Cons.IH)
  with e x show ?case by simp
qed

text \<open>
  C1. Debounce. Let an evaluation of any variant at clock reading \<open>t\<close> trigger, on a
  detector with minimum interval \<open>M\<close>. Then every evaluation (of any variant, on any
  input) that follows at a reading \<open>t'\<close> with \<open>t' - t < M\<close> returns \<open>triggered = False\<close>
  with strength 0 and the stored adaptive threshold, fires no callback, and leaves the
  whole detector state (signal histories, adaptive threshold, trigger count,
  last-trigger time, previous-spectrum snapshot) as it was; so no two evaluations less
  than \<open>M\<close> apart both report a trigger.
\<close>

theorem debounce_freezes_state:
  assumes "evaluate c t stamp s0 = Inr (r, fired, s1)"
    and "triggered r"
    and "\<forall>(c', t', stamp') \<in> set tr. t' - t < min_interval_ms s0"
  shows "run tr s1 =
         Inr (map (\<lambda>(c', t', stamp').
                (\<lparr> triggered = False, strength = 0, time_stamp = stamp',
                   result_threshold = adaptive_threshold s1 \<rparr>, [])) tr, s1)"
proof -
  from evaluate_last_trigger[OF assms(1,2)]
  have "last_trigger_time s1 = t" and "min_interval_ms s1 = min_interval_ms s0" by simp_all
  with assms(3)
  have "\<forall>(c', t', stamp') \<in> set tr. t' - last_trigger_time s1 < min_interval_ms s1" by simp
  from run_suppressed[OF this] show ?thesis
    by (simp add: get_detection_result_def)
qed

theorem debounce_freezes_state_witness:
  "evaluate (Energy_based 0.5 0.5) 1000 1 (init_detector 0.3 0.5 100) =
     Inr (\<lparr> triggered = True, strength = 5/3, time_stamp = 1, result_threshold = 0.3 \<rparr>, [],
          (init_detector 0.3 0.5 100)\<lparr> current_energy := 0.5, energy_history := [0.5],
             last_trigger_time := 1000, total_triggers := 1, last_trigger_strength := 5/3 \<rparr>)
   \<and> run [(Kick_call [1, 1], 1050, 2), (Energy_based 1 1, 1099, 3)]
         ((init_detector 0.3 0.5 100)\<lparr> current_energy := 0.5, energy_history := [0.5],
             last_trigger_time := 1000, total_triggers := 1, last_trigger_strength := 5/3 \<rparr>) =
       Inr ([(\<lparr> triggered = False, strength = 0, time_stamp = 2, result_threshold = 0.3 \<rparr>, []),
             (\<lparr> triggered = False, strength = 0, time_stamp = 3, result_threshold = 0.3 \<rparr>, [])],
            (init_detector 0.3 0.5 100)\<lparr> current_energy := 0.5, energy_history := [0.5],
             last_trigger_time := 1000, total_triggers := 1, last_trigger_strength := 5/3 \<rparr>)"
proof -
  let ?s1 = "(init_detector 0.3 0.5 100)\<lparr> current_energy := 0.5, energy_history := [0.5],
             last_trigger_time := 1000, total_triggers := 1, last_trigger_strength := 5/3 \<rparr>"
  let ?r = "\<lparr> triggered = True, strength = 5/3, time_stamp = 1, result_threshold = 0.3 \<rparr>"
  have e: "evaluate (Energy_based 0.5 0.5) 1000 1 (init_detector 0.3 0.5 100) = Inr (?r, [], ?s1)"
    by (simp add: detect_energy_based_def init_detector_def deque_append_def finish_def
          get_detection_result_def fire_callbacks_def Let_def)
  have t: "triggered ?r" by simp
  have w: "\<forall>(c', t', stamp') \<in> set [(Kick_call [1, 1], 1050, 2), (Energy_based 1 1, 1099, 3)].
             t' - 1000 < min_interval_ms (init_detector 0.3 0.5 100)"
    by (simp add: init_detector_def)
  from debounce_freezes_state[OF e t w] e show ?thesis
    by (simp add: init_detector_def)
qed


section \<open>Out-of-shape band input\<close>

text \<open>
  C10. Out-of-shape band input is rejected without side effects: \<^verbatim>\<open>detect_kick\<close> on
  fewer than 2 bands, \<^verbatim>\<open>detect_snare\<close> on fewer than 4, \<^verbatim>\<open>detect_hihat\<close> on fewer than
  6, and \<^verbatim>\<open>detect_band_transient\<close> with a band index at or beyond the length of the band
  vector each return a non-triggered result of strength 0, call no callback and return
  the detector state as it was.
\<close>

theorem out_of_shape_rejected:
  "(length band_data < 2 \<longrightarrow>
      detect_kick band_data now stamp s =
        (\<lparr> triggered = False, strength = 0, time_stamp = stamp,
           result_threshold = adaptive_threshold s \<rparr>, [], s))
   \<and> (length band_data < 4 \<longrightarrow>
      detect_snare band_data now stamp s =
        (\<lparr> triggered = False, strength = 0, time_stamp = stamp,
           result_threshold = adaptive_threshold s \<rparr>, [], s))
   \<and> (length band_data < 6 \<longrightarrow>
      detect_hihat band_data now stamp s =
        (\<lparr> triggered = False, strength = 0, time_stamp = stamp,
           result_threshold = adaptive_threshold s \<rparr>, [], s))
   \<and> (band_index \<ge> int (length band_data) \<longrightarrow>
      detect_band_transient band_data band_index now stamp s =
        Inr (\<lparr> triggered = False, strength = 0, time_stamp = stamp,
               result_threshold = adaptive_threshold s \<rparr>, [], s))"
  by (simp add: detect_kick_def detect_snare_def detect_hihat_def
        detect_band_transient_def get_detection_result_def)

theorem out_of_shape_rejected_witness:
  "detect_kick [0.9] 1000 1 (init_detector 0.3 0.5 100) =
     (\<lparr> triggered = False, strength = 0, time_stamp = 1, result_threshold = 0.3 \<rparr>, [],
      init_detector 0.3 0.5 100)
   \<and> detect_snare [0.9, 0.9, 0.9] 1000 1 (init_detector 0.3 0.5 100) =
     (\<lparr> triggered = False, strength = 0, time_stamp = 1, result_threshold = 0.3 \<rparr>, [],
      init_detector 0.3 0.5 100)
   \<and> detect_hihat [0.9, 0.9, 0.9, 0.9, 0.9] 1000 1 (init_detector 0.3 0.5 100) =
     (\<lparr> triggered = False, strength = 0, time_stamp = 1, result_threshold = 0.3 \<rparr>, [],
      init_detector 0.3 0.5 100)
   \<and> detect_band_transient [0.9, 0.9] 2 1000 1 (init_detector 0.3 0.5 100) =
     Inr (\<lparr> triggered = False, strength = 0, time_stamp = 1, result_threshold = 0.3 \<rparr>, [],
      init_detector 0.3 0.5 100)"
proof -
  have k: "length [0.9::real] < 2" by simp
  have sn: "length [0.9::real, 0.9, 0.9] < 4" by simp
  have h: "length [0.9::real, 0.9, 0.9, 0.9, 0.9] < 6" by simp
  have b: "(2::int) \<ge> int (length [0.9::real, 0.9])" by simp
  have t: "adaptive_threshold (init_detector 0.3 0.5 100) = 0.3"
    by (simp add: init_detector_def)
  from out_of_shape_rejected[of "[0.9]" 1000 1 "init_detector 0.3 0.5 100"] k
       out_of_shape_rejected[of "[0.9, 0.9, 0.9]" 1000 1 "init_detector 0.3 0.5 100"] sn
       out_of_shape_rejected[of "[0.9, 0.9, 0.9, 0.9, 0.9]" 1000 1 "init_detector 0.3 0.5 100"] h
       out_of_shape_rejected[of "[0.9, 0.9]" 1000 1 "init_detector 0.3 0.5 100" 2] b t
  show ?thesis by simp
qed


section \<open>What an evaluation does to the detector\<close>

lemma finish_effect:
  assumes "finish s trig str lab now stamp = (r, fired, s')"
  shows "triggered r = trig" and "strength r = str"
    and "result_threshold r = adaptive_threshold s"
    and "fired = (if trig then map (\<lambda>cb. (cb, str, lab)) (on_transient_callbacks s) else [])"
    and "on_transient_callbacks s' = on_transient_callbacks s"
    and "energy_history s' = energy_history s"
    and "flux_history s' = flux_history s"
    and "adaptive_threshold s' = adaptive_threshold s"
    and "threshold s' = threshold s"
    and "sensitivity s' = sensitivity s"
  using assms
  by (auto simp: finish_def get_detection_result_def fire_callbacks_def Let_def
           split: if_splits)

lemma band_decide_effect:
  assumes "band_decide e lab now stamp s = (r, fired, s')"
  shows "energy_history s' = deque_append 60 (energy_history s) e"
    and "flux_history s' = flux_history s"
    and "adaptive_threshold s' = adaptive_threshold s"
    and "threshold s' = threshold s"
    and "sensitivity s' = sensitivity s"
    and "on_transient_callbacks s' = on_transient_callbacks s"
    and "fired = (if triggered r then map (\<lambda>cb. (cb, strength r, lab)) (on_transient_callbacks s)
                  else [])"
    and "triggered r =
           (e > (if length (energy_history s') \<le> 10 then threshold s
                 else mean (energy_history s') + threshold s * sensitivity s))"
    and "strength r =
           (if triggered r
            then e / max 0.01 (if length (energy_history s') \<le> 10 then threshold s
                 else mean (energy_history s') + threshold s * sensitivity s)
            else 0)"
proof -
  let ?s1 = "s\<lparr> energy_history := deque_append 60 (energy_history s) e \<rparr>"
  let ?T = "if length (energy_history ?s1) > 10
            then sum_list (energy_history ?s1) / real (length (energy_history ?s1))
                 + threshold ?s1 * sensitivity ?s1
            else threshold ?s1"
  have f: "finish ?s1 (e > ?T) (if e > ?T then e / max 0.01 ?T else 0) lab now stamp
            = (r, fired, s')"
    using assms unfolding band_decide_def Let_def by simp
  note fe = finish_effect[OF f]
  show "energy_history s' = deque_append 60 (energy_history s) e" using fe(6) by simp
  show "flux_history s' = flux_history s" using fe(7) by simp
  show "adaptive_threshold s' = adaptive_threshold s" using fe(8) by simp
  show "threshold s' = threshold s" using fe(9) by simp
  show "sensitivity s' = sensitivity s" using fe(10) by simp
  show "on_transient_callbacks s' = on_transient_callbacks s" using fe(5) by simp
  show "fired = (if triggered r then map (\<lambda>cb. (cb, strength r, lab)) (on_transient_callbacks s)
                  else [])"
    using fe(1,2,4) by simp
  have eh: "energy_history s' = energy_history ?s1" using fe(6) by simp
  show "triggered r =
           (e > (if length (energy_history s') \<le> 10 then threshold s
                 else mean (energy_history s') + threshold s * sensitivity s))"
    using fe(1) unfolding eh by (simp add: mean_def not_le)
  show "strength r =
           (if triggered r
            then e / max 0.01 (if length (energy_history s') \<le> 10 then threshold s
                 else mean (energy_history s') + threshold s * sensitivity s)
            else 0)"
    using fe(1,2) unfolding eh by (simp add: mean_def not_le)
qed


lemma flux_fold:
  "fold (\<lambda>(x, p) acc. if x - p > 0 then acc + (x - p) else acc) zs (a::real)
   = a + sum_list (map (\<lambda>(x, p). max 0 (x - p)) zs)"
proof (induction zs arbitrary: a)
  case Nil
  show ?case by simp
next
  case (Cons z zs)
  obtain x p where z: "z = (x, p)" by (cases z) auto
  show ?case
    using Cons.IH[of "if x - p > 0 then a + (x - p) else a"]
    by (cases "x - p > 0") (simp_all add: z max.absorb1 max.absorb2 add.assoc)
qed

lemma flux_loop_eq:
  "flux_loop fd prev = sum_list (map (\<lambda>(x, p). max 0 (x - p)) (zip fd prev))"
  unfolding flux_loop_def flux_fold by simp

lemma energy_effect:
  assumes "\<not> now - last_trigger_time s < min_interval_ms s"
    and "detect_energy_based rl pl now stamp s = (r, fired, s')"
  shows "energy_history s' = deque_append 60 (energy_history s) pl"
    and "flux_history s' = flux_history s"
    and "adaptive_threshold s' =
           (if length (energy_history s') \<le> 10 then adaptive_threshold s
            else mean (energy_history s') + threshold s * sensitivity s)"
    and "threshold s' = threshold s"
    and "sensitivity s' = sensitivity s"
    and "on_transient_callbacks s' = on_transient_callbacks s"
    and "fired = (if triggered r then map (\<lambda>cb. (cb, strength r, Energy)) (on_transient_callbacks s)
                  else [])"
    and "triggered r = (pl > adaptive_threshold s')"
    and "strength r = (if triggered r then pl / max 0.01 (adaptive_threshold s') else 0)"
    and "result_threshold r = adaptive_threshold s'"
proof -
  let ?s1 = "s\<lparr> current_energy := pl,
                 energy_history := deque_append 60 (energy_history s) pl \<rparr>"
  let ?s2 = "if length (energy_history ?s1) > 10
             then ?s1\<lparr> adaptive_threshold :=
                    sum_list (energy_history ?s1) / real (length (energy_history ?s1))
                    + threshold ?s1 * sensitivity ?s1 \<rparr>
             else ?s1"
  let ?trig = "pl > adaptive_threshold ?s2"
  have f: "finish ?s2 ?trig (if ?trig then pl / max 0.01 (adaptive_threshold ?s2) else 0)
             Energy now stamp = (r, fired, s')"
    using assms unfolding detect_energy_based_def Let_def by simp
  note fe = finish_effect[OF f]
  have eh: "energy_history s' = deque_append 60 (energy_history s) pl"
    using fe(6) by simp
  have at: "adaptive_threshold s' = adaptive_threshold ?s2" using fe(8) by simp
  have at2: "adaptive_threshold ?s2 =
           (if length (energy_history s') \<le> 10 then adaptive_threshold s
            else mean (energy_history s') + threshold s * sensitivity s)"
    unfolding eh by (simp add: mean_def not_le)
  show "energy_history s' = deque_append 60 (energy_history s) pl" by (rule eh)
  show "flux_history s' = flux_history s" using fe(7) by simp
  show "adaptive_threshold s' =
           (if length (energy_history s') \<le> 10 then adaptive_threshold s
            else mean (energy_history s') + threshold s * sensitivity s)"
    using at at2 by simp
  show "threshold s' = threshold s" using fe(9) by simp
  show "sensitivity s' = sensitivity s" using fe(10) by simp
  show "on_transient_callbacks s' = on_transient_callbacks s" using fe(5) by simp
  show "fired = (if triggered r then map (\<lambda>cb. (cb, strength r, Energy)) (on_transient_callbacks s)
                  else [])"
    using fe(1,2,4) by simp
  show "triggered r = (pl > adaptive_threshold s')" using fe(1) at by simp
  show "strength r = (if triggered r then pl / max 0.01 (adaptive_threshold s') else 0)"
    using fe(1,2) at by simp
  show "result_threshold r = adaptive_threshold s'" using fe(3) at by simp
qed

lemma flux_effect:
  assumes "\<not> now - last_trigger_time s < min_interval_ms s"
    and "previous_spectrum s \<noteq> []"
    and "detect_spectral_flux fd now stamp s = (r, fired, s')"
  shows "flux_history s' = deque_append 60 (flux_history s) (monitored_signal (Flux fd) s)"
    and "energy_history s' = energy_history s"
    and "adaptive_threshold s' = adaptive_threshold s"
    and "threshold s' = threshold s"
    and "sensitivity s' = sensitivity s"
    and "on_transient_callbacks s' = on_transient_callbacks s"
    and "fired = (if triggered r
                  then map (\<lambda>cb. (cb, strength r, Spectral_flux)) (on_transient_callbacks s)
                  else [])"
    and "triggered r =
           (monitored_signal (Flux fd) s >
              (if length (flux_history s') \<le> 10 then threshold s
               else mean (flux_history s') * (1 + sensitivity s)))"
    and "strength r =
           (if triggered r
            then monitored_signal (Flux fd) s /
                 max 0.01 (if length (flux_history s') \<le> 10 then threshold s
                           else mean (flux_history s') * (1 + sensitivity s))
            else 0)"
proof -
  let ?flux = "flux_loop fd (previous_spectrum s)"
  have ms: "monitored_signal (Flux fd) s = ?flux" by (simp add: flux_loop_eq)
  define s1 where "s1 = s\<lparr> spectral_flux := ?flux,
                 flux_history := deque_append 60 (flux_history s) ?flux \<rparr>"
  define T where "T = (if length (flux_history s1) > 10
            then sum_list (flux_history s1) / real (length (flux_history s1))
                 * (1 + sensitivity s1)
            else threshold s1)"
  define str where "str = (if ?flux > T then ?flux / max 0.01 T else 0)"
  obtain r2 fired2 s2 where f: "finish s1 (?flux > T) str Spectral_flux now stamp
      = (r2, fired2, s2)"
    by (metis prod_cases3)
  have "detect_spectral_flux fd now stamp s =
      (case finish s1 (?flux > T) str Spectral_flux now stamp of
         (r, fired, s2) \<Rightarrow>
           (get_detection_result (s2\<lparr> previous_spectrum := fd \<rparr>) (?flux > T) str stamp,
            fired, s2\<lparr> previous_spectrum := fd \<rparr>))"
    unfolding detect_spectral_flux_def Let_def s1_def T_def str_def
    using assms(1,2) by (simp only: if_False)
  then have "(r, fired, s') =
      (get_detection_result (s2\<lparr> previous_spectrum := fd \<rparr>) (?flux > T) str stamp,
       fired2, s2\<lparr> previous_spectrum := fd \<rparr>)"
    using assms(3) by (simp only: f prod.case)
  then have res: "r = get_detection_result (s2\<lparr> previous_spectrum := fd \<rparr>) (?flux > T) str stamp"
    "fired = fired2" "s' = s2\<lparr> previous_spectrum := fd \<rparr>"
    by simp_all
  note fe = finish_effect[OF f]
  have r: "triggered r = (?flux > T)" "strength r = str"
    using res(1) by (simp_all add: get_detection_result_def)
  have s1: "flux_history s1 = deque_append 60 (flux_history s) ?flux"
    "energy_history s1 = energy_history s" "adaptive_threshold s1 = adaptive_threshold s"
    "threshold s1 = threshold s" "sensitivity s1 = sensitivity s"
    "on_transient_callbacks s1 = on_transient_callbacks s"
    by (simp_all add: s1_def)
  have fh: "flux_history s' = flux_history s1" using res(3) fe(7) by simp
  have T: "T = (if length (flux_history s') \<le> 10 then threshold s
               else mean (flux_history s') * (1 + sensitivity s))"
    unfolding T_def fh s1(4,5) by (simp add: mean_def not_le)
  show "flux_history s' = deque_append 60 (flux_history s) (monitored_signal (Flux fd) s)"
    unfolding ms using fh s1(1) by simp
  show "energy_history s' = energy_history s" using res(3) fe(6) s1(2) by simp
  show "adaptive_threshold s' = adaptive_threshold s" using res(3) fe(8) s1(3) by simp
  show "threshold s' = threshold s" using res(3) fe(9) s1(4) by simp
  show "sensitivity s' = sensitivity s" using res(3) fe(10) s1(5) by simp
  show "on_transient_callbacks s' = on_transient_callbacks s" using res(3) fe(5) s1(6) by simp
  show "fired = (if triggered r
                  then map (\<lambda>cb. (cb, strength r, Spectral_flux)) (on_transient_callbacks s)
                  else [])"
    unfolding r res(2) fe(4) s1(6) by simp
  show "triggered r =
           (monitored_signal (Flux fd) s > (if length (flux_history s') \<le> 10 then threshold s
               else mean (flux_history s') * (1 + sensitivity s)))"
    unfolding ms r(1) T by simp
  show "strength r =
           (if triggered r
            then monitored_signal (Flux fd) s /
                 max 0.01 (if length (flux_history s') \<le> 10 then threshold s
                           else mean (flux_history s') * (1 + sensitivity s))
            else 0)"
    unfolding ms r str_def T by simp
qed


lemma deque_append_length: "length (deque_append m h x) = min m (length h + 1)"
  by (simp add: deque_append_def Let_def)

lemma drop_last_two:
  assumes "2 \<le> length b"
  shows "drop (length b - 2) b = [b ! (length b - 2), b ! (length b - 1)]"
proof -
  have a: "length b - 2 < length b" and c: "length b - 1 < length b"
    and d: "Suc (length b - 2) = length b - 1" and e: "Suc (length b - 1) = length b"
    using assms by auto
  have "drop (length b - 2) b = b ! (length b - 2) # drop (length b - 1) b"
    using Cons_nth_drop_Suc[OF a] d by simp
  also have "drop (length b - 1) b = b ! (length b - 1) # drop (length b) b"
    using Cons_nth_drop_Suc[OF c] e by simp
  finally show ?thesis by simp
qed

lemma evaluate_accepted:
  assumes "accepted c now s" and "evaluate c now stamp s = Inr (r, fired, s')"
  shows "history_of c s' = deque_append 60 (history_of c s) (monitored_signal c s)"
    and "threshold s' = threshold s"
    and "sensitivity s' = sensitivity s"
    and "on_transient_callbacks s' = on_transient_callbacks s"
    and "length (energy_history s) \<le> length (energy_history s') \<or> 10 < length (energy_history s')"
    and "adaptive_threshold s' =
           (if is_energy c \<and> 10 < length (energy_history s')
            then mean (energy_history s') + threshold s * sensitivity s
            else adaptive_threshold s)"
    and "\<not> is_energy c \<Longrightarrow>
           triggered r = (monitored_signal c s >
              spec_threshold (threshold s) (sensitivity s) c (history_of c s'))"
    and "\<not> is_energy c \<Longrightarrow>
           strength r = (if triggered r then monitored_signal c s /
              max 0.01 (spec_threshold (threshold s) (sensitivity s) c (history_of c s')) else 0)"
    and "is_energy c \<Longrightarrow> triggered r = (monitored_signal c s > adaptive_threshold s')"
    and "is_energy c \<Longrightarrow>
           strength r = (if triggered r then monitored_signal c s /
              max 0.01 (adaptive_threshold s') else 0)"
    and "is_energy c \<Longrightarrow> result_threshold r = adaptive_threshold s'"
    and "\<exists>lab. fired = (if triggered r
           then map (\<lambda>cb. (cb, strength r, lab)) (on_transient_callbacks s) else [])"
proof -
  have ns: "\<not> now - last_trigger_time s < min_interval_ms s" and sh: "in_shape c s"
    using assms(1) by (simp_all add: accepted_def)
  have grow: "length h \<le> length (deque_append 60 h x) \<or> 10 < length (deque_append 60 h x)"
    for h :: "real list" and x
    by (simp add: deque_append_length min_def)
  have all: "history_of c s' = deque_append 60 (history_of c s) (monitored_signal c s)
    \<and> threshold s' = threshold s \<and> sensitivity s' = sensitivity s
    \<and> on_transient_callbacks s' = on_transient_callbacks s
    \<and> (length (energy_history s) \<le> length (energy_history s') \<or> 10 < length (energy_history s'))
    \<and> adaptive_threshold s' =
           (if is_energy c \<and> 10 < length (energy_history s')
            then mean (energy_history s') + threshold s * sensitivity s
            else adaptive_threshold s)
    \<and> (\<not> is_energy c \<longrightarrow>
           triggered r = (monitored_signal c s >
              spec_threshold (threshold s) (sensitivity s) c (history_of c s')))
    \<and> (\<not> is_energy c \<longrightarrow>
           strength r = (if triggered r then monitored_signal c s /
              max 0.01 (spec_threshold (threshold s) (sensitivity s) c (history_of c s')) else 0))
    \<and> (is_energy c \<longrightarrow> triggered r = (monitored_signal c s > adaptive_threshold s'))
    \<and> (is_energy c \<longrightarrow>
           strength r = (if triggered r then monitored_signal c s /
              max 0.01 (adaptive_threshold s') else 0))
    \<and> (is_energy c \<longrightarrow> result_threshold r = adaptive_threshold s')
    \<and> (\<exists>lab. fired = (if triggered r
           then map (\<lambda>cb. (cb, strength r, lab)) (on_transient_callbacks s) else []))"
  proof (cases c)
    case (Energy_based rl pl)
    then have d: "detect_energy_based rl pl now stamp s = (r, fired, s')"
      using assms(2) by simp
    note e = energy_effect[OF ns d]
    have g: "length (energy_history s) \<le> length (energy_history s') \<or> 10 < length (energy_history s')"
      unfolding e(1) by (rule grow)
    show ?thesis
      using e g by (auto simp: Energy_based is_energy_def)
  next
    case (Flux fd)
    then have d: "detect_spectral_flux fd now stamp s = (r, fired, s')"
      using assms(2) by simp
    have p: "previous_spectrum s \<noteq> []" using sh Flux by simp
    note e = flux_effect[OF ns p d]
    show ?thesis
      unfolding Flux using e by (auto simp: is_energy_def)
  next
    case (Band_transient b i)
    have rng: "- int (length b) \<le> i" "i < int (length b)" using sh Band_transient by simp_all
    have ix: "py_index b i = Inr (monitored_signal c s)"
      using rng by (auto simp: py_index_def Let_def Band_transient)
    have d: "band_decide (monitored_signal c s) (Band i) now stamp s = (r, fired, s')"
      using assms(2) ns rng ix unfolding Band_transient
      by (simp add: detect_band_transient_def)
    note e = band_decide_effect[OF d]
    have g: "length (energy_history s) \<le> length (energy_history s') \<or> 10 < length (energy_history s')"
      unfolding e(1) by (rule grow)
    show ?thesis
      using e g unfolding Band_transient by (auto simp: is_energy_def)
  next
    case (Kick_call b)
    have d: "band_decide (monitored_signal c s) Kick now stamp s = (r, fired, s')"
      using assms(2) ns sh unfolding Kick_call
      by (simp add: detect_kick_def Let_def)
    note e = band_decide_effect[OF d]
    have g: "length (energy_history s) \<le> length (energy_history s') \<or> 10 < length (energy_history s')"
      unfolding e(1) by (rule grow)
    show ?thesis
      using e g unfolding Kick_call by (auto simp: is_energy_def)
  next
    case (Snare_call b)
    have d: "band_decide (monitored_signal c s) Snare now stamp s = (r, fired, s')"
      using assms(2) ns sh unfolding Snare_call
      by (simp add: detect_snare_def Let_def)
    note e = band_decide_effect[OF d]
    have g: "length (energy_history s) \<le> length (energy_history s') \<or> 10 < length (energy_history s')"
      unfolding e(1) by (rule grow)
    show ?thesis
      using e g unfolding Snare_call by (auto simp: is_energy_def)
  next
    case (Hihat_call b)
    have l: "2 \<le> length b" using sh Hihat_call by simp
    have d: "band_decide (monitored_signal c s) Hihat now stamp s = (r, fired, s')"
      using assms(2) ns sh unfolding Hihat_call
      by (simp add: detect_hihat_def Let_def drop_last_two[OF l])
    note e = band_decide_effect[OF d]
    have g: "length (energy_history s) \<le> length (energy_history s') \<or> 10 < length (energy_history s')"
      unfolding e(1) by (rule grow)
    show ?thesis
      using e g unfolding Hihat_call by (auto simp: is_energy_def)
  qed
  show "history_of c s' = deque_append 60 (history_of c s) (monitored_signal c s)"
    and "threshold s' = threshold s"
    and "sensitivity s' = sensitivity s"
    and "on_transient_callbacks s' = on_transient_callbacks s"
    and "length (energy_history s) \<le> length (energy_history s') \<or> 10 < length (energy_history s')"
    and "adaptive_threshold s' =
           (if is_energy c \<and> 10 < length (energy_history s')
            then mean (energy_history s') + threshold s * sensitivity s
            else adaptive_threshold s)"
    and "\<not> is_energy c \<Longrightarrow>
           triggered r = (monitored_signal c s >
              spec_threshold (threshold s) (sensitivity s) c (history_of c s'))"
    and "\<not> is_energy c \<Longrightarrow>
           strength r = (if triggered r then monitored_signal c s /
              max 0.01 (spec_threshold (threshold s) (sensitivity s) c (history_of c s')) else 0)"
    and "is_energy c \<Longrightarrow> triggered r = (monitored_signal c s > adaptive_threshold s')"
    and "is_energy c \<Longrightarrow>
           strength r = (if triggered r then monitored_signal c s /
              max 0.01 (adaptive_threshold s') else 0)"
    and "is_energy c \<Longrightarrow> result_threshold r = adaptive_threshold s'"
    and "\<exists>lab. fired = (if triggered r
           then map (\<lambda>cb. (cb, strength r, lab)) (on_transient_callbacks s) else [])"
    using all by blast+
qed


lemma evaluate_not_accepted:
  assumes "\<not> accepted c now s" and "evaluate c now stamp s = Inr (r, fired, s')"
  shows "energy_history s' = energy_history s"
    and "flux_history s' = flux_history s"
    and "adaptive_threshold s' = adaptive_threshold s"
    and "threshold s' = threshold s"
    and "sensitivity s' = sensitivity s"
    and "on_transient_callbacks s' = on_transient_callbacks s"
    and "\<not> triggered r" and "strength r = 0" and "fired = []"
proof -
  have all: "energy_history s' = energy_history s \<and> flux_history s' = flux_history s
    \<and> adaptive_threshold s' = adaptive_threshold s \<and> threshold s' = threshold s
    \<and> sensitivity s' = sensitivity s
    \<and> on_transient_callbacks s' = on_transient_callbacks s
    \<and> \<not> triggered r \<and> strength r = 0 \<and> fired = []"
  proof (cases "now - last_trigger_time s < min_interval_ms s")
    case True
    from evaluate_suppressed[OF True, of c stamp] assms(2)
    show ?thesis by (auto simp: get_detection_result_def)
  next
    case False
    with assms(1) have sh: "\<not> in_shape c s" by (simp add: accepted_def)
    show ?thesis
    proof (cases c)
      case (Energy_based rl pl)
      with sh show ?thesis by simp
    next
      case (Flux fd)
      with sh assms(2) False show ?thesis
        by (auto simp: detect_spectral_flux_def get_detection_result_def Let_def)
    next
      case (Band_transient b i)
      with sh assms(2) False show ?thesis
        by (auto simp: detect_band_transient_def get_detection_result_def py_index_def Let_def
                 split: if_splits)
    next
      case (Kick_call b)
      with sh assms(2) show ?thesis
        by (auto simp: detect_kick_def get_detection_result_def)
    next
      case (Snare_call b)
      with sh assms(2) show ?thesis
        by (auto simp: detect_snare_def get_detection_result_def)
    next
      case (Hihat_call b)
      with sh assms(2) show ?thesis
        by (auto simp: detect_hihat_def get_detection_result_def)
    qed
  qed
  show "energy_history s' = energy_history s"
    and "flux_history s' = flux_history s"
    and "adaptive_threshold s' = adaptive_threshold s"
    and "threshold s' = threshold s"
    and "sensitivity s' = sensitivity s"
    and "on_transient_callbacks s' = on_transient_callbacks s"
    and "\<not> triggered r" and "strength r = 0" and "fired = []"
    using all by blast+
qed






section \<open>Concrete runs of the detector\<close>







section \<open>Callback registration\<close>

lemma count_distinct:
  assumes "distinct xs" and "x \<in> set xs"
  shows "length (filter (\<lambda>y. y = x) xs) = 1"
proof -
  have "{y. y = x} \<inter> set xs = {x}" using assms(2) by auto
  then show ?thesis using distinct_length_filter[OF assms(1), of "\<lambda>y. y = x"] by simp
qed

lemma evaluate_callbacks:
  assumes "evaluate c now stamp s = Inr (r, fired, s')"
  shows "on_transient_callbacks s' = on_transient_callbacks s"
  using evaluate_accepted(4)[OF _ assms] evaluate_not_accepted(6)[OF _ assms]
  by (cases "accepted c now s") auto

lemma reachable_distinct:
  assumes "detector_reachable s"
  shows "distinct (on_transient_callbacks s)"
  using assms
proof (induction rule: detector_reachable.induct)
  case (constructed thr sens interval)
  show ?case by (simp add: init_detector_def)
next
  case (evaluated s c now stamp r fired s')
  then show ?case using evaluate_callbacks by simp
next
  case (callback_added s cb)
  then show ?case by (simp add: add_callback_def)
next
  case (callback_removed s cb)
  then show ?case by (simp add: remove_callback_def)
next
  case (threshold_set s thr)
  then show ?case by (simp add: set_threshold_def)
next
  case (sensitivity_set s sens)
  then show ?case by (simp add: set_sensitivity_def)
next
  case (min_interval_set s interval)
  then show ?case by (simp add: set_min_interval_def)
next
  case (was_reset s)
  then show ?case by (simp add: reset_detector_def)
qed

lemma add_callback_registered: "cb \<in> set (on_transient_callbacks (add_callback cb s))"
  by (simp add: add_callback_def)

lemma add_callback_twice: "add_callback cb (add_callback cb s) = add_callback cb s"
  by (simp add: add_callback_def)

lemma add_callback_repeated: "0 < n \<Longrightarrow> (add_callback cb ^^ n) s = add_callback cb s"
proof (induction n)
  case 0
  then show ?case by simp
next
  case (Suc n)
  show ?case
  proof (cases "n = 0")
    case True
    then show ?thesis by simp
  next
    case False
    with Suc.IH have "(add_callback cb ^^ n) s = add_callback cb s" by simp
    then show ?thesis by (simp add: add_callback_twice)
  qed
qed

lemma registered_invoked_once:
  assumes "distinct (on_transient_callbacks s)" and "cb \<in> set (on_transient_callbacks s)"
    and "evaluate c now stamp s = Inr (r, fired, s')" and "triggered r"
  shows "times_invoked cb fired = 1"
proof -
  have acc: "accepted c now s"
    using evaluate_not_accepted(7)[OF _ assms(3)] assms(4) by blast
  from evaluate_accepted(12)[OF acc assms(3)] assms(4)
  obtain lab where f: "fired = map (\<lambda>cb. (cb, strength r, lab)) (on_transient_callbacks s)"
    by auto
  have "filter (\<lambda>i. fst i = cb) fired
        = map (\<lambda>cb. (cb, strength r, lab)) (filter (\<lambda>y. y = cb) (on_transient_callbacks s))"
    unfolding f by (simp add: filter_map o_def)
  then show ?thesis
    unfolding times_invoked_def using count_distinct[OF assms(1,2)] by simp
qed

text \<open>
  C9. Callback registration is idempotent. In every state the constructor and the methods
  lead to: \<^verbatim>\<open>add_callback\<close> of a registered callback leaves the detector unchanged,
  \<^verbatim>\<open>remove_callback\<close> of an unregistered one too, registering a callback \<open>n > 0\<close> times
  is registering it once, and a trigger after that calls it exactly once.
\<close>

theorem callback_registration_idempotent:
  assumes "detector_reachable s"
  shows "(cb \<in> set (on_transient_callbacks s) \<longrightarrow> add_callback cb s = s)
     \<and> (cb \<notin> set (on_transient_callbacks s) \<longrightarrow> remove_callback cb s = s)
     \<and> (0 < n \<longrightarrow> (add_callback cb ^^ n) s = add_callback cb s)
     \<and> (0 < n \<longrightarrow> evaluate c now stamp ((add_callback cb ^^ n) s) = Inr (r, fired, s')
          \<longrightarrow> triggered r \<longrightarrow> times_invoked cb fired = 1)"
proof -
  have d: "distinct (on_transient_callbacks (add_callback cb s))"
    using reachable_distinct[OF detector_reachable.callback_added[OF assms]] .
  show ?thesis
    using registered_invoked_once[OF d add_callback_registered]
    by (auto simp: add_callback_repeated) (simp_all add: add_callback_def remove_callback_def)
qed

theorem callback_registration_idempotent_witness:
  "detector_reachable (add_callback 7 (init_detector 0.3 0.5 100))
   \<and> add_callback 7 (add_callback 7 (init_detector 0.3 0.5 100))
       = add_callback 7 (init_detector 0.3 0.5 100)
   \<and> remove_callback 8 (add_callback 7 (init_detector 0.3 0.5 100))
       = add_callback 7 (init_detector 0.3 0.5 100)
   \<and> evaluate (Energy_based 0.5 0.5) 1000 1
        ((add_callback 7 ^^ 3) (add_callback 7 (init_detector 0.3 0.5 100)))
       = Inr (\<lparr> triggered = True, strength = 5/3, time_stamp = 1, result_threshold = 0.3 \<rparr>,
              [(7, 5/3, Energy)],
              (init_detector 0.3 0.5 100)\<lparr> current_energy := 0.5, energy_history := [0.5],
                 on_transient_callbacks := [7],
                 last_trigger_time := 1000, total_triggers := 1,
                 last_trigger_strength := 5/3 \<rparr>)
   \<and> times_invoked 7 [(7, 5/3, Energy)] = 1"
proof -
  let ?s = "add_callback 7 (init_detector 0.3 0.5 100)"
  let ?r = "\<lparr> triggered = True, strength = 5/3, time_stamp = 1, result_threshold = 0.3 \<rparr>"
  let ?s' = "(init_detector 0.3 0.5 100)\<lparr> current_energy := 0.5, energy_history := [0.5],
                 on_transient_callbacks := [7],
                 last_trigger_time := 1000, total_triggers := 1,
                 last_trigger_strength := 5/3 \<rparr>"
  have re: "detector_reachable ?s"
    by (rule detector_reachable.callback_added) (rule detector_reachable.constructed)
  have m: "(7::nat) \<in> set (on_transient_callbacks ?s)"
    and nm: "(8::nat) \<notin> set (on_transient_callbacks ?s)"
    by (simp_all add: add_callback_def init_detector_def)
  have e: "evaluate (Energy_based 0.5 0.5) 1000 1 ((add_callback 7 ^^ 3) ?s)
           = Inr (?r, [(7, 5/3, Energy)], ?s')"
    by (simp add: eval_nat_numeral add_callback_def detect_energy_based_def init_detector_def
          deque_append_def finish_def get_detection_result_def fire_callbacks_def Let_def)
  have t: "triggered ?r" by simp
  from callback_registration_idempotent[OF re, of 7 3 "Energy_based 0.5 0.5" 1000 1 ?r
         "[(7, 5/3, Energy)]" ?s']
       callback_registration_idempotent[OF re, of 8 3 "Energy_based 0.5 0.5" 1000 1 ?r
         "[(7, 5/3, Energy)]" ?s']
       re m nm e t
  show ?thesis by simp
qed


section \<open>The analyzer on absent or empty input\<close>

text \<open>
  C6. When the per-tick input is absent (\<^verbatim>\<open>None\<close>) or empty (zero samples or zero
  channels), \<^verbatim>\<open>analyze_chop\<close> returns the frame whose spectrum is \<^verbatim>\<open>frequency_bin_count\<close>
  zeros, whose rms, peak and envelope are 0 and whose band vectors are 8, 16 and 32 zeros,
  and the state of the analyzer is the one before the call.
\<close>

theorem empty_input_zero_frame:
  assumes "chop_reference = None
     \<or> (\<exists>c. chop_reference = Some c \<and> (numSamples c = 0 \<or> numChans c = 0))"
  shows "analyze_chop chop_reference s =
     Inr (\<lparr> frame_frequency_data = replicate (nat (frequency_bin_count s)) 0,
            rms = 0, peak = 0, envelope = 0,
            bands = \<lparr> band_8 = replicate 8 0, band_16 = replicate 16 0,
                      band_32 = replicate 32 0 \<rparr> \<rparr>, s)"
  using assms
  by (auto simp: analyze_chop_def get_empty_analysis_def Let_def)

theorem empty_input_zero_frame_witness:
  "analyze_chop None (init_analyzer 8 0.8) =
     Inr (\<lparr> frame_frequency_data = [0, 0, 0, 0], rms = 0, peak = 0, envelope = 0,
            bands = \<lparr> band_8 = replicate 8 0, band_16 = replicate 16 0,
                      band_32 = replicate 32 0 \<rparr> \<rparr>, init_analyzer 8 0.8)
   \<and> analyze_chop (Some []) (init_analyzer 8 0.8) =
     Inr (\<lparr> frame_frequency_data = [0, 0, 0, 0], rms = 0, peak = 0, envelope = 0,
            bands = \<lparr> band_8 = replicate 8 0, band_16 = replicate 16 0,
                      band_32 = replicate 32 0 \<rparr> \<rparr>, init_analyzer 8 0.8)
   \<and> analyze_chop (Some [[]]) (init_analyzer 8 0.8) =
     Inr (\<lparr> frame_frequency_data = [0, 0, 0, 0], rms = 0, peak = 0, envelope = 0,
            bands = \<lparr> band_8 = replicate 8 0, band_16 = replicate 16 0,
                      band_32 = replicate 32 0 \<rparr> \<rparr>, init_analyzer 8 0.8)"
proof -
  have n: "(None :: chop option) = None
     \<or> (\<exists>c. (None :: chop option) = Some c \<and> (numSamples c = 0 \<or> numChans c = 0))"
    by simp
  have c0: "Some ([] :: chop) = None
     \<or> (\<exists>c. Some ([] :: chop) = Some c \<and> (numSamples c = 0 \<or> numChans c = 0))"
    by (simp add: numChans_def)
  have s0: "Some ([[]] :: chop) = None
     \<or> (\<exists>c. Some ([[]] :: chop) = Some c \<and> (numSamples c = 0 \<or> numChans c = 0))"
    by (simp add: numSamples_def)
  have f: "replicate (nat (frequency_bin_count (init_analyzer 8 0.8))) (0::real) = [0, 0, 0, 0]"
    by (simp add: init_analyzer_def eval_nat_numeral)
  from empty_input_zero_frame[OF n, of "init_analyzer 8 0.8"]
       empty_input_zero_frame[OF c0, of "init_analyzer 8 0.8"]
       empty_input_zero_frame[OF s0, of "init_analyzer 8 0.8"] f
  show ?thesis by simp
qed

section \<open>Attack and release tick counts\<close>

lemma max_py_int: "max 1 (py_int x) = max 1 \<lfloor>x\<rfloor>"
  by (auto simp: py_int_def max_def)

subsection \<open>Rounding to double precision\<close>

lemma double_ulp_eval:
  assumes "2 powr real_of_int e \<le> \<bar>x\<bar>" and "\<bar>x\<bar> < 2 powr (real_of_int e + 1)"
    and "- 1022 \<le> e"
  shows "double_ulp x = 2 powr (real_of_int e - 52)"
proof -
  have "0 < \<bar>x\<bar>" using assms(1) powr_gt_zero[of 2 "real_of_int e"] by linarith
  then have "\<lfloor>log 2 \<bar>x\<bar>\<rfloor> = e"
    using assms(1,2) by (simp add: floor_log_eq_powr_iff)
  then show ?thesis using assms(3) by (simp add: double_ulp_def)
qed

lemma to_double_eval:
  assumes "2 powr real_of_int e \<le> \<bar>x\<bar>" and "\<bar>x\<bar> < 2 powr (real_of_int e + 1)"
    and "- 1022 \<le> e"
  shows "to_double x =
         real_of_int (round_half_even (x / 2 powr (real_of_int e - 52)))
         * 2 powr (real_of_int e - 52)"
proof -
  have "x \<noteq> 0" using assms(1) powr_gt_zero[of 2 "real_of_int e"] by auto
  then show ?thesis
    unfolding to_double_def double_ulp_eval[OF assms] by simp
qed

lemma round_half_even_near: "\<bar>real_of_int (round_half_even y) - y\<bar> \<le> 1 / 2"
  unfolding round_half_even_def by (auto simp: abs_if) linarith+

lemma to_double_near:
  assumes "\<bar>x\<bar> \<le> 2 powr real_of_int k" and "- 1022 \<le> k"
  shows "\<bar>to_double x - x\<bar> \<le> 2 powr (real_of_int k - 53)"
proof (cases "x = 0")
  case True
  then show ?thesis by (simp add: to_double_def)
next
  case False
  define m where "m = max (- 1022) \<lfloor>log 2 \<bar>x\<bar>\<rfloor>"
  define u where "u = double_ulp x"
  have u: "u = 2 powr (real_of_int m - 52)" by (simp add: u_def m_def double_ulp_def)
  have up: "0 < u" unfolding u by simp
  have "log 2 \<bar>x\<bar> \<le> real_of_int k"
    using log_mono[of 2 "\<bar>x\<bar>" "2 powr real_of_int k"] assms(1) False by simp
  then have "\<lfloor>log 2 \<bar>x\<bar>\<rfloor> \<le> k" by (simp add: floor_le_iff) 
  then have "m \<le> k" using assms(2) by (simp add: m_def)
  then have ule: "u \<le> 2 powr (real_of_int k - 52)" unfolding u by simp
  have "to_double x - x = (real_of_int (round_half_even (x / u)) - x / u) * u"
    using False up by (simp add: to_double_def u_def algebra_simps)
  then have "\<bar>to_double x - x\<bar> = \<bar>real_of_int (round_half_even (x / u)) - x / u\<bar> * u"
    using up by (simp add: abs_mult)
  also have "\<dots> \<le> 1 / 2 * u"
    using round_half_even_near[of "x / u"] up by (simp add: mult_right_mono)
  also have "\<dots> \<le> 1 / 2 * 2 powr (real_of_int k - 52)" using ule by simp
  also have "\<dots> = 2 powr (real_of_int k - 53)"
    using powr_diff[of 2 "real_of_int k - 52" 1] by simp
  finally show ?thesis .
qed


lemma float_product_near:
  assumes "0 \<le> ms" and "ms \<le> 2 ^ 30" and "0 \<le> fps" and "fps \<le> 2 ^ 20"
  shows "\<bar>float_mul (float_div ms 1000) fps - ms / 1000 * fps\<bar> < 1"
proof -
  define q where "q = to_double (ms / 1000)"
  have "\<bar>ms / 1000\<bar> \<le> 2 powr real_of_int 21" using assms(1,2) by simp
  from to_double_near[OF this] have qe: "\<bar>q - ms / 1000\<bar> \<le> 1 / 2 ^ 32"
    by (simp add: q_def powr_neg_numeral)
  have "\<bar>q\<bar> \<le> \<bar>ms / 1000\<bar> + 1 / 2 ^ 32" using qe by linarith
  also have "\<dots> \<le> 2 ^ 21" using assms(1,2) by simp
  finally have qb: "\<bar>q\<bar> \<le> 2 ^ 21" .
  have "\<bar>q * fps\<bar> = \<bar>q\<bar> * fps" using assms(3) by (simp add: abs_mult)
  also have "\<dots> \<le> 2 ^ 21 * 2 ^ 20"
    by (rule mult_mono[OF qb assms(4)]) (use assms(3) in simp_all)
  finally have "\<bar>q * fps\<bar> \<le> 2 powr real_of_int 41" by simp
  from to_double_near[OF this]
  have pe: "\<bar>to_double (q * fps) - q * fps\<bar> \<le> 1 / 2 ^ 12"
    by (simp add: powr_neg_numeral)
  have "q * fps - ms / 1000 * fps = (q - ms / 1000) * fps"
    by (simp only: left_diff_distrib)
  then have "\<bar>q * fps - ms / 1000 * fps\<bar> = \<bar>q - ms / 1000\<bar> * fps"
    using assms(3) by (simp only: abs_mult abs_of_nonneg)
  also have "\<dots> \<le> 1 / 2 ^ 32 * 2 ^ 20"
    by (rule mult_mono[OF qe assms(4)]) (use assms(3) in simp_all)
  finally have me: "\<bar>q * fps - ms / 1000 * fps\<bar> \<le> 1 / 2 ^ 12" by simp
  have "\<bar>to_double (q * fps) - ms / 1000 * fps\<bar> \<le> 1 / 2 ^ 12 + 1 / 2 ^ 12"
    using pe me by linarith
  then show ?thesis unfolding float_mul_def float_div_def q_def by simp
qed

lemma ticks_near:
  assumes "\<bar>p - x\<bar> < 1"
  shows "\<bar>max 1 \<lfloor>p\<rfloor> - max 1 \<lfloor>x::real\<rfloor>\<bar> \<le> 1"
proof -
  have "\<lfloor>p\<rfloor> \<le> \<lfloor>x\<rfloor> + 1" using assms by (simp add: floor_le_iff) linarith
  moreover have "\<lfloor>x\<rfloor> \<le> \<lfloor>p\<rfloor> + 1" using assms by (simp add: floor_le_iff) linarith
  ultimately show ?thesis by linarith
qed


subsection \<open>Concrete products\<close>

lemma double_30_60:
  "to_double (30 / 1000) = 8646911284551352 / 2 ^ 58"
  "to_double (8646911284551352 / 2 ^ 58 * 60) = 8106479329266892 / 2 ^ 52"
  using to_double_eval[of "- 6" "30 / 1000"]
        to_double_eval[of 0 "8646911284551352 / 2 ^ 58 * 60"]
  by (simp_all add: round_half_even_def powr_neg_numeral)

lemma double_500_60:
  "to_double (500 / 1000) = 1 / 2"
  "to_double (1 / 2 * 60) = 30"
  using to_double_eval[of "- 1" "500 / 1000"] to_double_eval[of 4 "1 / 2 * 60"]
  by (simp_all add: round_half_even_def powr_neg_numeral)

lemma double_2050_60:
  "to_double (2050 / 1000) = 4616189618054758 / 2 ^ 51"
  "to_double (4616189618054758 / 2 ^ 51 * 60) = 8655355533852671 / 2 ^ 46"
  using to_double_eval[of 1 "2050 / 1000"]
        to_double_eval[of 6 "4616189618054758 / 2 ^ 51 * 60"]
  by (simp_all add: round_half_even_def powr_neg_numeral)

lemma double_290_100:
  "to_double (290 / 1000) = 5224175567749775 / 2 ^ 54"
  "to_double (5224175567749775 / 2 ^ 54 * 100) = 8162774324609023 / 2 ^ 48"
  using to_double_eval[of "- 2" "290 / 1000"]
        to_double_eval[of 4 "5224175567749775 / 2 ^ 54 * 100"]
  by (simp_all add: round_half_even_def powr_neg_numeral)

text \<open>
  The tick counts the source stores: 30 ms at 60 ticks per second is the double
  1.7999999999999998, 290 ms at 100 is 28.999999999999996, 2050 ms at 60 is
  122.99999999999999, and 500 ms at 60 is 30.0.
\<close>

lemma ticks_30_60: "max 1 (py_int (float_mul (float_div 30 1000) 60)) = 1"
  unfolding float_mul_def float_div_def double_30_60 by (simp add: py_int_def)

lemma ticks_500_60: "max 1 (py_int (float_mul (float_div 500 1000) 60)) = 30"
  unfolding float_mul_def float_div_def double_500_60 by (simp add: py_int_def)

lemma ticks_2050_60: "max 1 (py_int (float_mul (float_div 2050 1000) 60)) = 122"
  unfolding float_mul_def float_div_def double_2050_60 by (simp add: py_int_def)

lemma ticks_290_100: "max 1 (py_int (float_mul (float_div 290 1000) 100)) = 28"
  unfolding float_mul_def float_div_def double_290_100 by (simp add: py_int_def)

text \<open>
  C7, as amended. \<^verbatim>\<open>set_attack_release\<close> sets the attack and release tick counts to
  \<open>max(1, floor(p))\<close>, where \<open>p\<close> is the double-precision product
  \<^verbatim>\<open>(ms / 1000.0) * fps\<close>: the product is truncated by \<^verbatim>\<open>int\<close>, not rounded (truncation
  toward zero and the floor agree under the \<open>max\<close> with 1). For times from 0 to
  \<open>2^30\<close> ms and tick rates from 0 to \<open>2^20\<close> the count is within 1 of
  \<open>max(1, floor(ms/1000 * fps))\<close> taken exactly; it is one less where the double product
  falls just below an integer.
\<close>

theorem attack_release_ticks:
  "attack_frames (set_attack_release attack_ms release_ms fps s)
     = max 1 \<lfloor>float_mul (float_div attack_ms 1000) fps\<rfloor>
   \<and> release_frames (set_attack_release attack_ms release_ms fps s)
     = max 1 \<lfloor>float_mul (float_div release_ms 1000) fps\<rfloor>
   \<and> (0 \<le> attack_ms \<and> attack_ms \<le> 2 ^ 30 \<and> 0 \<le> fps \<and> fps \<le> 2 ^ 20 \<longrightarrow>
        \<bar>attack_frames (set_attack_release attack_ms release_ms fps s)
         - max 1 \<lfloor>attack_ms / 1000 * fps\<rfloor>\<bar> \<le> 1)
   \<and> (0 \<le> release_ms \<and> release_ms \<le> 2 ^ 30 \<and> 0 \<le> fps \<and> fps \<le> 2 ^ 20 \<longrightarrow>
        \<bar>release_frames (set_attack_release attack_ms release_ms fps s)
         - max 1 \<lfloor>release_ms / 1000 * fps\<rfloor>\<bar> \<le> 1)"
proof -
  have a: "attack_frames (set_attack_release attack_ms release_ms fps s)
     = max 1 \<lfloor>float_mul (float_div attack_ms 1000) fps\<rfloor>"
    and r: "release_frames (set_attack_release attack_ms release_ms fps s)
     = max 1 \<lfloor>float_mul (float_div release_ms 1000) fps\<rfloor>"
    by (simp_all add: set_attack_release_def max_py_int)
  have n: "\<bar>max 1 \<lfloor>float_mul (float_div ms 1000) fps\<rfloor> - max 1 \<lfloor>ms / 1000 * fps\<rfloor>\<bar> \<le> 1"
    if "0 \<le> ms \<and> ms \<le> 2 ^ 30 \<and> 0 \<le> fps \<and> fps \<le> 2 ^ 20" for ms
    using that by (intro ticks_near float_product_near) simp_all
  show ?thesis unfolding a r using n by blast
qed

text \<open>
  The counts for 290 ms at 100 ticks per second and for 2050 ms at 60: 28 and 122,
  one below the exact floors 29 and 123.
\<close>

theorem attack_release_ticks_witness:
  "(0::real) \<le> 290 \<and> (290::real) \<le> 2 ^ 30 \<and> (0::real) \<le> 100 \<and> (100::real) \<le> 2 ^ 20
   \<and> attack_frames (set_attack_release 290 290 100 (init_analyzer 2048 0.8)) = 28
   \<and> release_frames (set_attack_release 290 290 100 (init_analyzer 2048 0.8)) = 28
   \<and> max 1 \<lfloor>(290::real) / 1000 * 100\<rfloor> = 29
   \<and> (0::real) \<le> 2050 \<and> (2050::real) \<le> 2 ^ 30 \<and> (0::real) \<le> 60 \<and> (60::real) \<le> 2 ^ 20
   \<and> attack_frames (set_attack_release 2050 2050 60 (init_analyzer 2048 0.8)) = 122
   \<and> release_frames (set_attack_release 2050 2050 60 (init_analyzer 2048 0.8)) = 122
   \<and> max 1 \<lfloor>(2050::real) / 1000 * 60\<rfloor> = 123"
proof -
  have a: "attack_frames (set_attack_release 290 290 100 (init_analyzer 2048 0.8)) = 28"
    "release_frames (set_attack_release 290 290 100 (init_analyzer 2048 0.8)) = 28"
    by (simp_all add: set_attack_release_def ticks_290_100)
  have b: "attack_frames (set_attack_release 2050 2050 60 (init_analyzer 2048 0.8)) = 122"
    "release_frames (set_attack_release 2050 2050 60 (init_analyzer 2048 0.8)) = 122"
    by (simp_all add: set_attack_release_def ticks_2050_60)
  from attack_release_ticks[of 290 290 100 "init_analyzer 2048 0.8"]
       attack_release_ticks[of 2050 2050 60 "init_analyzer 2048 0.8"] a b
  show ?thesis by simp
qed

text \<open>
  C7 as stated fails: 30 ms at 60 ticks per second is the double 1.7999999999999998,
  which the source truncates to 1 and the specification's rounding makes 2.
\<close>

theorem attack_release_round_counterexample:
  "attack_frames (set_attack_release 30 30 60 (init_analyzer 2048 0.8)) = 1
   \<and> release_frames (set_attack_release 30 30 60 (init_analyzer 2048 0.8)) = 1
   \<and> spec_ticks 30 60 = 2"
  by (simp add: set_attack_release_def ticks_30_60 spec_ticks_def round_def)

section \<open>Reset of the analyzer\<close>

lemma smoothing_length:
  "length (fold (\<lambda>i fd. if i < length fd then fd[i := g i fd] else fd) is fd0) = length fd0"
  by (induction "is" arbitrary: fd0) simp_all

lemma update_levels_fields:
  assumes "update_levels c s = Inr s'"
  shows "fft_size s' = fft_size s"
    and "smoothing_time_constant s' = smoothing_time_constant s"
    and "frequency_bin_count s' = frequency_bin_count s"
    and "history_size s' = history_size s"
    and "frequency_data s' = frequency_data s"
  using assms
  by (auto simp: update_levels_def Let_def split: if_splits sum.splits)

lemma analyze_chop_fields:
  assumes "analyze_chop c s = Inr (f, s')"
  shows "fft_size s' = fft_size s"
    and "smoothing_time_constant s' = smoothing_time_constant s"
    and "frequency_bin_count s' = frequency_bin_count s"
    and "history_size s' = history_size s"
    and "length (frequency_data s') = length (frequency_data s)"
proof -
  have "fft_size s' = fft_size s \<and> smoothing_time_constant s' = smoothing_time_constant s
    \<and> frequency_bin_count s' = frequency_bin_count s \<and> history_size s' = history_size s
    \<and> length (frequency_data s') = length (frequency_data s)"
  proof (cases c)
    case None
    with assms show ?thesis by (simp add: analyze_chop_def)
  next
    case (Some ch)
    show ?thesis
    proof (cases "numSamples ch = 0 \<or> numChans ch = 0")
      case True
      with assms Some show ?thesis by (simp add: analyze_chop_def Let_def)
    next
      case False
      define raw where "raw = map (\<lambda>i. hd ch ! i)
                         [0..<nat (min (int (numSamples ch)) (frequency_bin_count s))]"
      define s1 where "s1 = s\<lparr> frequency_data :=
                            fold (\<lambda>i fd.
                                if i < length fd
                                then fd[i := smoothing_time_constant s * fd ! i
                                          + (1 - smoothing_time_constant s) * raw ! i]
                                else fd)
                              [0..<length raw] (frequency_data s) \<rparr>"
      have s1: "fft_size s1 = fft_size s" "smoothing_time_constant s1 = smoothing_time_constant s"
        "frequency_bin_count s1 = frequency_bin_count s" "history_size s1 = history_size s"
        "length (frequency_data s1) = length (frequency_data s)"
        by (simp_all add: s1_def smoothing_length)
      have "update_levels ch s1 = Inr s'"
        using assms Some False unfolding analyze_chop_def Let_def s1_def raw_def
        by (auto split: sum.splits)
      from update_levels_fields[OF this] s1 show ?thesis by simp
    qed
  qed
  then show "fft_size s' = fft_size s"
    and "smoothing_time_constant s' = smoothing_time_constant s"
    and "frequency_bin_count s' = frequency_bin_count s"
    and "history_size s' = history_size s"
    and "length (frequency_data s') = length (frequency_data s)"
    by simp_all
qed

lemma analyzer_invariant:
  assumes "analyzer_reachable fft smoothing s"
  shows "fft_size s = fft \<and> smoothing_time_constant s = smoothing
    \<and> frequency_bin_count s = fft div 2 \<and> history_size s = 60
    \<and> length (frequency_data s) = nat (fft div 2)"
  using assms
proof (induction rule: analyzer_reachable.induct)
  case fresh
  show ?case by (simp add: init_analyzer_def)
next
  case (analyzed s c f s')
  from analyze_chop_fields[OF analyzed.hyps(2)] analyzed.IH show ?case by simp
next
  case (configured s attack_ms release_ms fps)
  then show ?case by (simp add: set_attack_release_def)
next
  case (cleared s)
  then show ?case by (simp add: reset_analyzer_def)
qed

lemma reset_is_fresh:
  assumes "analyzer_reachable fft smoothing s"
  shows "reset_analyzer s =
         (init_analyzer fft smoothing)\<lparr> attack_frames := attack_frames s,
                                        release_frames := release_frames s \<rparr>"
  using analyzer_invariant[OF assms]
  by (cases s) (simp add: reset_analyzer_def init_analyzer_def)

text \<open>
  C8, as amended. In every reachable state, \<^verbatim>\<open>reset()\<close> followed by \<^verbatim>\<open>analyze_chop\<close>
  returns the same frame (and leaves the same state) as a freshly constructed analyzer
  with the same constructor parameters and the same attack and release tick counts;
  \<^verbatim>\<open>reset()\<close> keeps the tick counts set by \<^verbatim>\<open>set_attack_release\<close>. When they are still
  the defaults 1 and 30, the fresh analyzer needs no adjustment.
\<close>

theorem reset_like_fresh:
  assumes "analyzer_reachable fft smoothing s"
  shows "analyze_chop c (reset_analyzer s)
         = analyze_chop c ((init_analyzer fft smoothing)\<lparr> attack_frames := attack_frames s,
                              release_frames := release_frames s \<rparr>)
     \<and> (attack_frames s = 1 \<and> release_frames s = 30 \<longrightarrow>
          analyze_chop c (reset_analyzer s) = analyze_chop c (init_analyzer fft smoothing))"
proof -
  have "attack_frames s = 1 \<and> release_frames s = 30 \<Longrightarrow>
        (init_analyzer fft smoothing)\<lparr> attack_frames := attack_frames s,
                              release_frames := release_frames s \<rparr> = init_analyzer fft smoothing"
    by (simp add: init_analyzer_def)
  then show ?thesis using reset_is_fresh[OF assms] by auto
qed

text \<open>One tick of a fresh analyzer of FFT size 8 on the one-sample window \<open>[1]\<close>.\<close>

lemma after_one_tick:
  "analyze_chop (Some [[1]]) (init_analyzer 8 0.8) =
     Inr (\<lparr> frame_frequency_data = [0.2, 0, 0, 0], rms = 1, peak = 1, envelope = 1,
            bands = extract_frequency_bands
              ((init_analyzer 8 0.8)\<lparr> frequency_data := [0.2, 0, 0, 0], rms_level := 1,
                 peak_level := 1, rms_history := [1], peak_history := [1],
                 envelope_value := 1 \<rparr>) \<rparr>,
          (init_analyzer 8 0.8)\<lparr> frequency_data := [0.2, 0, 0, 0], rms_level := 1,
             peak_level := 1, rms_history := [1], peak_history := [1],
             envelope_value := 1 \<rparr>)"
  by (simp add: analyze_chop_def update_levels_def numSamples_def numChans_def
      init_analyzer_def Let_def py_max_def eval_nat_numeral deque_append_def)

text \<open>
  C8 as stated fails after \<^verbatim>\<open>set_attack_release(500, 500, 60)\<close>: the attack count 30
  survives the reset, and the envelope of the next frame is 1/30 where a fresh analyzer
  gives 1.
\<close>

theorem reset_counterexample:
  "analyzer_reachable 8 0.8 (set_attack_release 500 500 60 (init_analyzer 8 0.8))
   \<and> map_option envelope (frame_of (analyze_chop (Some [[1]])
        (reset_analyzer (set_attack_release 500 500 60 (init_analyzer 8 0.8))))) = Some (1 / 30)
   \<and> map_option envelope (frame_of (analyze_chop (Some [[1]]) (init_analyzer 8 0.8))) = Some 1"
proof -
  have "analyzer_reachable 8 0.8 (set_attack_release 500 500 60 (init_analyzer 8 0.8))"
    by (rule analyzer_reachable.configured) (rule analyzer_reachable.fresh)
  moreover have "map_option envelope (frame_of (analyze_chop (Some [[1]])
        (reset_analyzer (set_attack_release 500 500 60 (init_analyzer 8 0.8))))) = Some (1 / 30)"
    by (simp add: analyze_chop_def update_levels_def numSamples_def numChans_def
      init_analyzer_def Let_def py_max_def eval_nat_numeral deque_append_def frame_of_def
      set_attack_release_def reset_analyzer_def ticks_500_60)
  moreover have "map_option envelope (frame_of (analyze_chop (Some [[1]]) (init_analyzer 8 0.8)))
      = Some 1"
    unfolding after_one_tick by (simp add: frame_of_def)
  ultimately show ?thesis by simp
qed

theorem reset_like_fresh_witness:
  "analyzer_reachable 8 0.8 (set_attack_release 500 500 60 (init_analyzer 8 0.8))
   \<and> analyze_chop (Some [[1]]) (reset_analyzer (set_attack_release 500 500 60 (init_analyzer 8 0.8)))
     = analyze_chop (Some [[1]])
         ((init_analyzer 8 0.8)\<lparr> attack_frames := 30, release_frames := 30 \<rparr>)
   \<and> analyzer_reachable 8 0.8
        ((init_analyzer 8 0.8)\<lparr> frequency_data := [0.2, 0, 0, 0], rms_level := 1,
             peak_level := 1, rms_history := [1], peak_history := [1],
             envelope_value := 1 \<rparr>)
   \<and> analyze_chop (Some [[1]]) (reset_analyzer
        ((init_analyzer 8 0.8)\<lparr> frequency_data := [0.2, 0, 0, 0], rms_level := 1,
             peak_level := 1, rms_history := [1], peak_history := [1],
             envelope_value := 1 \<rparr>))
     = analyze_chop (Some [[1]]) (init_analyzer 8 0.8)"
proof -
  let ?s1 = "set_attack_release 500 500 60 (init_analyzer 8 0.8)"
  let ?s2 = "(init_analyzer 8 0.8)\<lparr> frequency_data := [0.2, 0, 0, 0], rms_level := 1,
             peak_level := 1, rms_history := [1], peak_history := [1],
             envelope_value := 1 \<rparr>"
  have r1: "analyzer_reachable 8 0.8 ?s1"
    by (rule analyzer_reachable.configured) (rule analyzer_reachable.fresh)
  have r2: "analyzer_reachable 8 0.8 ?s2"
    by (rule analyzer_reachable.analyzed[OF analyzer_reachable.fresh after_one_tick])
  have a1: "attack_frames ?s1 = 30" "release_frames ?s1 = 30"
    by (simp_all add: set_attack_release_def ticks_500_60)
  have a2: "attack_frames ?s2 = 1 \<and> release_frames ?s2 = 30"
    by (simp add: init_analyzer_def)
  from reset_like_fresh[OF r1, of "Some [[1]]"] reset_like_fresh[OF r2, of "Some [[1]]"]
       r1 r2 a1 a2
  show ?thesis by simp
qed


section \<open>Frequency ranges outside the spectrum\<close>

lemma range_zero_zero:
  assumes "fft_size s \<noteq> 0" and "sample_rate \<noteq> 0"
  shows "get_frequency_range 0 0 sample_rate s = Inr 0"
  using assms by (simp add: get_frequency_range_def py_int_def Let_def)

lemma range_below_zero:
  assumes "0 < fft_size s" and "0 < sample_rate" and "max_freq < 0"
  shows "get_frequency_range min_freq max_freq sample_rate s = Inr 0"
proof -
  let ?fpb = "sample_rate / real_of_int (fft_size s)"
  have fpb: "0 < ?fpb" using assms(1,2) by simp
  have "max_freq / ?fpb < 0" by (rule divide_neg_pos[OF assms(3) fpb])
  then have "py_int (max_freq / ?fpb) \<le> 0"
    unfolding py_int_def by (simp add: ceiling_le_iff)
  then have e: "max 0 (min (py_int (max_freq / ?fpb)) (int (length (frequency_data s)))) = 0"
    by simp
  have nz: "fft_size s \<noteq> 0" "?fpb \<noteq> 0" using assms(1,2) by simp_all
  show ?thesis
    unfolding get_frequency_range_def Let_def e using nz by simp
qed

lemma range_above_nyquist:
  assumes "0 < fft_size s" and "0 < sample_rate"
    and "length (frequency_data s) = nat (fft_size s div 2)"
    and "sample_rate / 2 < min_freq" and "min_freq \<le> max_freq"
  shows "get_frequency_range min_freq max_freq sample_rate s =
         Inr (if frequency_data s = [] then 0 else last (frequency_data s))"
proof -
  let ?fpb = "sample_rate / real_of_int (fft_size s)"
  let ?n = "int (length (frequency_data s))"
  have fpb: "0 < ?fpb" using assms(1,2) by simp
  have n: "?n = fft_size s div 2" using assms(1,3) by simp
  have "real_of_int (fft_size s div 2) \<le> real_of_int (fft_size s) / 2"
    by (metis of_int_numeral real_of_int_div4)
  also have "\<dots> = (sample_rate / 2) / ?fpb" using assms(1,2) by simp
  also have "\<dots> < min_freq / ?fpb" by (rule divide_strict_right_mono[OF assms(4) fpb])
  finally have lo: "real_of_int ?n < min_freq / ?fpb" using n by simp
  have "min_freq / ?fpb \<le> max_freq / ?fpb"
    by (rule divide_right_mono[OF assms(5)]) (use fpb in simp)
  with lo have hi: "real_of_int ?n < max_freq / ?fpb" by simp
  have pos: "0 \<le> min_freq / ?fpb" "0 \<le> max_freq / ?fpb" using lo hi by linarith+
  have sb: "?n \<le> py_int (min_freq / ?fpb)"
    unfolding py_int_def using pos(1) lo by (simp add: le_floor_iff)
  have eb: "?n \<le> py_int (max_freq / ?fpb)"
    unfolding py_int_def using pos(2) hi by (simp add: le_floor_iff)
  have st: "max 0 (min (py_int (min_freq / ?fpb)) (?n - 1)) = max 0 (?n - 1)"
    using sb by simp
  have en: "max 0 (min (py_int (max_freq / ?fpb)) ?n) = ?n"
    using eb by simp
  have nz: "fft_size s \<noteq> 0" "?fpb \<noteq> 0" using assms(1,2) by simp_all
  have g: "get_frequency_range min_freq max_freq sample_rate s =
      (if ?n \<le> max 0 (?n - 1) then Inr 0
       else Inr (sum_list (py_slice (frequency_data s) (max 0 (?n - 1)) ?n)
                 / real_of_int (?n - max 0 (?n - 1))))"
    unfolding get_frequency_range_def Let_def st en using nz by simp
  show ?thesis
  proof (cases "frequency_data s = []")
    case True
    then show ?thesis unfolding g by simp
  next
    case False
    then have l: "0 < length (frequency_data s)" by simp
    then have m: "max 0 (?n - 1) = ?n - 1" by simp
    have "py_slice (frequency_data s) (?n - 1) ?n = [last (frequency_data s)]"
    proof -
      have "nat (?n - 1) = length (frequency_data s) - 1" by simp
      moreover have "drop (length (frequency_data s) - 1) (frequency_data s)
                     = [last (frequency_data s)]"
        using False by (metis append_butlast_last_id append_eq_conv_conj length_butlast)
      moreover have "length (frequency_data s) - (length (frequency_data s) - 1) = 1"
        using l by arith
      ultimately show ?thesis unfolding py_slice_def by simp
    qed
    then show ?thesis unfolding g m using False l by simp
  qed
qed

text \<open>
  C4, as amended. On a reachable analyzer of positive FFT size:
  \<^verbatim>\<open>get_frequency_range(0, 0, sampleRate)\<close> returns 0 for every non-zero sample rate;
  for a positive sample rate, a range that ends below 0 Hz returns 0, and a range that
  lies entirely above \<open>sampleRate/2\<close> returns the magnitude of the last bin of the
  smoothed spectrum (the start index is clamped to the last bin, the end index to the
  bin count), 0 only for an empty spectrum.
\<close>

theorem frequency_range_outside:
  assumes "analyzer_reachable fft smoothing s" and "0 < fft"
  shows "(sample_rate \<noteq> 0 \<longrightarrow> get_frequency_range 0 0 sample_rate s = Inr 0)
     \<and> (0 < sample_rate \<and> max_freq < 0 \<longrightarrow>
          get_frequency_range min_freq max_freq sample_rate s = Inr 0)
     \<and> (0 < sample_rate \<and> sample_rate / 2 < min_freq \<and> min_freq \<le> max_freq \<longrightarrow>
          get_frequency_range min_freq max_freq sample_rate s =
            Inr (if frequency_data s = [] then 0 else last (frequency_data s)))"
proof -
  note inv = analyzer_invariant[OF assms(1)]
  have f: "0 < fft_size s" and l: "length (frequency_data s) = nat (fft_size s div 2)"
    using inv assms(2) by simp_all
  show ?thesis
    using range_zero_zero[of s sample_rate] range_below_zero[OF f, of sample_rate max_freq min_freq]
      range_above_nyquist[OF f _ l, of sample_rate min_freq max_freq] f
    by auto
qed


text \<open>One tick of a fresh analyzer of FFT size 8 on the window \<open>[1, 1, 1, 1]\<close>.\<close>

lemma after_full_tick:
  "analyze_chop (Some [[1, 1, 1, 1]]) (init_analyzer 8 0.8) =
     Inr (\<lparr> frame_frequency_data = [0.2, 0.2, 0.2, 0.2], rms = 1, peak = 1, envelope = 1,
            bands = extract_frequency_bands
              ((init_analyzer 8 0.8)\<lparr> frequency_data := [0.2, 0.2, 0.2, 0.2], rms_level := 1,
                 peak_level := 1, rms_history := [1], peak_history := [1],
                 envelope_value := 1 \<rparr>) \<rparr>,
          (init_analyzer 8 0.8)\<lparr> frequency_data := [0.2, 0.2, 0.2, 0.2], rms_level := 1,
             peak_level := 1, rms_history := [1], peak_history := [1],
             envelope_value := 1 \<rparr>)"
  by (simp add: analyze_chop_def update_levels_def numSamples_def numChans_def
      init_analyzer_def Let_def py_max_def eval_nat_numeral deque_append_def)

text \<open>
  C4 as stated fails: after one tick that leaves 0.2 in every bin, the range
  30000 to 40000 Hz, entirely above 44100/2, returns 0.2, the last bin.
\<close>

theorem frequency_range_counterexample:
  "analyzer_reachable 8 0.8
     ((init_analyzer 8 0.8)\<lparr> frequency_data := [0.2, 0.2, 0.2, 0.2], rms_level := 1,
         peak_level := 1, rms_history := [1], peak_history := [1], envelope_value := 1 \<rparr>)
   \<and> (44100 :: real) / 2 < 30000 \<and> (30000 :: real) \<le> 40000
   \<and> get_frequency_range 30000 40000 44100
     ((init_analyzer 8 0.8)\<lparr> frequency_data := [0.2, 0.2, 0.2, 0.2], rms_level := 1,
         peak_level := 1, rms_history := [1], peak_history := [1], envelope_value := 1 \<rparr>)
     = Inr (1 / 5)"
proof -
  have "analyzer_reachable 8 0.8
     ((init_analyzer 8 0.8)\<lparr> frequency_data := [0.2, 0.2, 0.2, 0.2], rms_level := 1,
         peak_level := 1, rms_history := [1], peak_history := [1], envelope_value := 1 \<rparr>)"
    by (rule analyzer_reachable.analyzed[OF analyzer_reachable.fresh after_full_tick])
  moreover have "get_frequency_range 30000 40000 44100
     ((init_analyzer 8 0.8)\<lparr> frequency_data := [0.2, 0.2, 0.2, 0.2], rms_level := 1,
         peak_level := 1, rms_history := [1], peak_history := [1], envelope_value := 1 \<rparr>)
     = Inr (1 / 5)"
    by (simp add: get_frequency_range_def init_analyzer_def py_int_def py_slice_def Let_def)
  ultimately show ?thesis by simp
qed

theorem frequency_range_outside_witness:
  "analyzer_reachable 8 0.8
     ((init_analyzer 8 0.8)\<lparr> frequency_data := [0.2, 0.2, 0.2, 0.2], rms_level := 1,
         peak_level := 1, rms_history := [1], peak_history := [1], envelope_value := 1 \<rparr>)
   \<and> get_frequency_range 0 0 44100
     ((init_analyzer 8 0.8)\<lparr> frequency_data := [0.2, 0.2, 0.2, 0.2], rms_level := 1,
         peak_level := 1, rms_history := [1], peak_history := [1], envelope_value := 1 \<rparr>)
     = Inr 0
   \<and> get_frequency_range (- 200) (- 100) 44100
     ((init_analyzer 8 0.8)\<lparr> frequency_data := [0.2, 0.2, 0.2, 0.2], rms_level := 1,
         peak_level := 1, rms_history := [1], peak_history := [1], envelope_value := 1 \<rparr>)
     = Inr 0
   \<and> get_frequency_range 30000 40000 44100
     ((init_analyzer 8 0.8)\<lparr> frequency_data := [0.2, 0.2, 0.2, 0.2], rms_level := 1,
         peak_level := 1, rms_history := [1], peak_history := [1], envelope_value := 1 \<rparr>)
     = Inr (1 / 5)"
proof -
  let ?s = "(init_analyzer 8 0.8)\<lparr> frequency_data := [0.2, 0.2, 0.2, 0.2], rms_level := 1,
         peak_level := 1, rms_history := [1], peak_history := [1], envelope_value := 1 \<rparr>"
  have r: "analyzer_reachable 8 0.8 ?s"
    by (rule analyzer_reachable.analyzed[OF analyzer_reachable.fresh after_full_tick])
  have p: "(0::int) < 8" by simp
  have fd: "frequency_data ?s = [0.2, 0.2, 0.2, 0.2]" by simp
  from frequency_range_outside[OF r p, of 44100 "- 100" "- 200"]
       frequency_range_outside[OF r p, of 44100 40000 30000] r
  show ?thesis unfolding fd by simp
qed


section \<open>Band energies\<close>

lemma py_int_boundary:
  "py_int (real n / real nb * real k) = int (boundary n nb k)"
proof -
  have "0 \<le> real n / real nb * real k" by simp
  then show ?thesis by (simp add: py_int_def boundary_def)
qed

lemma calculate_bands_length: "length (calculate_bands num_bands s) = nat num_bands"
  by (simp add: calculate_bands_def Let_def)

lemma calculate_bands_nth:
  assumes "0 < num_bands" and "k < nat num_bands"
  shows "calculate_bands num_bands s ! k =
     (if boundary (length (frequency_data s)) (nat num_bands) k
         < boundary (length (frequency_data s)) (nat num_bands) (Suc k)
      then sum_list (take (boundary (length (frequency_data s)) (nat num_bands) (Suc k)
                           - boundary (length (frequency_data s)) (nat num_bands) k)
                      (drop (boundary (length (frequency_data s)) (nat num_bands) k)
                         (frequency_data s)))
           / real (boundary (length (frequency_data s)) (nat num_bands) (Suc k)
                   - boundary (length (frequency_data s)) (nat num_bands) k)
      else 0)"
proof -
  let ?n = "length (frequency_data s)"
  let ?nb = "nat num_bands"
  have nb: "real_of_int num_bands = real ?nb" using assms(1) by simp
  have a: "py_int (real ?n / real_of_int num_bands * real k) = int (boundary ?n ?nb k)"
    unfolding nb by (rule py_int_boundary)
  have b: "py_int (real ?n / real_of_int num_bands * real (k + 1)) = int (boundary ?n ?nb (Suc k))"
    unfolding nb using py_int_boundary[of ?n ?nb "Suc k"] by simp
  have "calculate_bands num_bands s ! k =
      (let start_bin = py_int ((real ?n / real_of_int num_bands) * real k);
           end_bin = py_int ((real ?n / real_of_int num_bands) * real (k + 1));
           band_sum = sum_list (py_slice (frequency_data s) start_bin end_bin)
       in if end_bin > start_bin then band_sum / real_of_int (end_bin - start_bin) else 0)"
    using assms(2) by (simp add: calculate_bands_def Let_def)
  also have "\<dots> =
     (if boundary ?n ?nb k < boundary ?n ?nb (Suc k)
      then sum_list (take (boundary ?n ?nb (Suc k) - boundary ?n ?nb k)
                      (drop (boundary ?n ?nb k) (frequency_data s)))
           / real (boundary ?n ?nb (Suc k) - boundary ?n ?nb k)
      else 0)"
    unfolding a b Let_def py_slice_def by (simp add: of_nat_diff)
  finally show ?thesis .
qed

lemma boundary_first: "boundary n nb 0 = 0"
  by (simp add: boundary_def)

lemma boundary_last: "0 < nb \<Longrightarrow> boundary n nb nb = n"
  by (simp add: boundary_def)

lemma boundary_mono: "boundary n nb k \<le> boundary n nb (Suc k)"
proof -
  have "real n / real nb * real k \<le> real n / real nb * real (Suc k)"
    by (rule mult_left_mono) simp_all
  then have "\<lfloor>real n / real nb * real k\<rfloor> \<le> \<lfloor>real n / real nb * real (Suc k)\<rfloor>"
    by (rule floor_mono)
  then show ?thesis unfolding boundary_def by simp
qed

lemma boundary_strict:
  assumes "0 < nb" and "nb \<le> n"
  shows "boundary n nb k < boundary n nb (Suc k)"
proof -
  let ?q = "real n / real nb"
  have q: "1 \<le> ?q" using assms by simp
  have "?q * real (Suc k) = ?q * real k + ?q" by (simp add: distrib_left)
  then have "?q * real k + 1 \<le> ?q * real (Suc k)" using q by simp
  then have "\<lfloor>?q * real k + 1\<rfloor> \<le> \<lfloor>?q * real (Suc k)\<rfloor>" by (rule floor_mono)
  then have "\<lfloor>?q * real k\<rfloor> + 1 \<le> \<lfloor>?q * real (Suc k)\<rfloor>" by simp
  moreover have "0 \<le> \<lfloor>?q * real k\<rfloor>" by simp
  ultimately show ?thesis unfolding boundary_def by linarith
qed

lemma groups_prefix:
  "concat (map (\<lambda>k. take (boundary n nb (Suc k) - boundary n nb k)
                        (drop (boundary n nb k) xs)) [0..<m])
   = take (boundary n nb m) xs"
proof (induction m)
  case 0
  show ?case by (simp add: boundary_first)
next
  case (Suc m)
  have "boundary n nb (Suc m) = boundary n nb m + (boundary n nb (Suc m) - boundary n nb m)"
    using boundary_mono[of n nb m] by simp
  then have "take (boundary n nb (Suc m)) xs
     = take (boundary n nb m) xs
       @ take (boundary n nb (Suc m) - boundary n nb m) (drop (boundary n nb m) xs)"
    by (metis take_add)
  with Suc.IH show ?case by simp
qed

lemma boundaries_10_8: "map (boundary 10 8) [0..<9] = [0, 1, 2, 3, 5, 6, 7, 8, 10]"
  by (simp add: boundary_def eval_nat_numeral upt_rec)


text \<open>
  C5, as amended. For a positive band count, \<^verbatim>\<open>_calculate_bands\<close> returns one value per
  band; band \<open>k\<close> is the average magnitude of the bins from boundary \<open>k\<close> up to
  boundary \<open>k + 1\<close>, where boundary \<open>i\<close> is \<open>floor(binCount/numBands * i)\<close>, and 0 when
  that group is empty; the boundaries start at 0, end at the bin count, and the groups
  in order make up the whole spectrum. No group is empty when the band count is at most
  the bin count. With 10 bins and 8 bands the boundaries are 0, 1, 2, 3, 5, 6, 7, 8, 10,
  so every group holds at least one bin.
\<close>

theorem band_partition:
  assumes "0 < num_bands"
  shows "length (calculate_bands num_bands s) = nat num_bands
     \<and> (\<forall>k < nat num_bands.
          calculate_bands num_bands s ! k =
            (if boundary (length (frequency_data s)) (nat num_bands) k
                < boundary (length (frequency_data s)) (nat num_bands) (Suc k)
             then sum_list (take (boundary (length (frequency_data s)) (nat num_bands) (Suc k)
                                  - boundary (length (frequency_data s)) (nat num_bands) k)
                             (drop (boundary (length (frequency_data s)) (nat num_bands) k)
                                (frequency_data s)))
                  / real (boundary (length (frequency_data s)) (nat num_bands) (Suc k)
                          - boundary (length (frequency_data s)) (nat num_bands) k)
             else 0))
     \<and> boundary (length (frequency_data s)) (nat num_bands) 0 = 0
     \<and> boundary (length (frequency_data s)) (nat num_bands) (nat num_bands)
         = length (frequency_data s)
     \<and> concat (map (\<lambda>k. take (boundary (length (frequency_data s)) (nat num_bands) (Suc k)
                                - boundary (length (frequency_data s)) (nat num_bands) k)
                             (drop (boundary (length (frequency_data s)) (nat num_bands) k)
                                (frequency_data s)))
                 [0..<nat num_bands])
         = frequency_data s
     \<and> (nat num_bands \<le> length (frequency_data s) \<longrightarrow>
          (\<forall>k < nat num_bands.
             boundary (length (frequency_data s)) (nat num_bands) k
             < boundary (length (frequency_data s)) (nat num_bands) (Suc k)))
     \<and> map (boundary 10 8) [0..<9] = [0, 1, 2, 3, 5, 6, 7, 8, 10]"
proof -
  have nb: "0 < nat num_bands" using assms by simp
  have "concat (map (\<lambda>k. take (boundary (length (frequency_data s)) (nat num_bands) (Suc k)
                                - boundary (length (frequency_data s)) (nat num_bands) k)
                             (drop (boundary (length (frequency_data s)) (nat num_bands) k)
                                (frequency_data s)))
                 [0..<nat num_bands])
         = frequency_data s"
    unfolding groups_prefix boundary_last[OF nb] by simp
  then show ?thesis
    using calculate_bands_nth[OF assms] boundary_strict[OF nb]
    by (simp add: calculate_bands_length boundary_first boundary_last[OF nb] boundaries_10_8)
qed

text \<open>One tick of a fresh analyzer of FFT size 20, without smoothing, on ten ones.\<close>

lemma after_ten_ones:
  "analyze_chop (Some [[1, 1, 1, 1, 1, 1, 1, 1, 1, 1]]) (init_analyzer 20 0) =
     Inr (\<lparr> frame_frequency_data = [1, 1, 1, 1, 1, 1, 1, 1, 1, 1], rms = 1, peak = 1,
            envelope = 1,
            bands = extract_frequency_bands
              ((init_analyzer 20 0)\<lparr> frequency_data := [1, 1, 1, 1, 1, 1, 1, 1, 1, 1],
                 rms_level := 1, peak_level := 1, rms_history := [1], peak_history := [1],
                 envelope_value := 1 \<rparr>) \<rparr>,
          (init_analyzer 20 0)\<lparr> frequency_data := [1, 1, 1, 1, 1, 1, 1, 1, 1, 1],
             rms_level := 1, peak_level := 1, rms_history := [1], peak_history := [1],
             envelope_value := 1 \<rparr>)"
  by (simp add: analyze_chop_def update_levels_def numSamples_def numChans_def
      init_analyzer_def Let_def py_max_def eval_nat_numeral deque_append_def)

lemma bands_of_ten_ones:
  "calculate_bands 8
     ((init_analyzer 20 0)\<lparr> frequency_data := [1, 1, 1, 1, 1, 1, 1, 1, 1, 1],
         rms_level := 1, peak_level := 1, rms_history := [1], peak_history := [1],
         envelope_value := 1 \<rparr>)
   = [1, 1, 1, 1, 1, 1, 1, 1]"
  by (simp add: calculate_bands_def py_int_def py_slice_def Let_def eval_nat_numeral upt_rec)


theorem band_partition_witness:
  "(0::int) < 8
   \<and> nat 8 \<le> length (frequency_data
         ((init_analyzer 20 0)\<lparr> frequency_data := [1, 2, 3, 4, 5, 6, 7, 8, 9, 10] \<rparr>))
   \<and> length (calculate_bands 8
         ((init_analyzer 20 0)\<lparr> frequency_data := [1, 2, 3, 4, 5, 6, 7, 8, 9, 10] \<rparr>)) = 8
   \<and> boundary 10 8 3 = 3 \<and> boundary 10 8 4 = 5
   \<and> calculate_bands 8
         ((init_analyzer 20 0)\<lparr> frequency_data := [1, 2, 3, 4, 5, 6, 7, 8, 9, 10] \<rparr>) ! 3
       = 9 / 2"
proof -
  let ?s = "(init_analyzer 20 0)\<lparr> frequency_data := [1, 2, 3, 4, 5, 6, 7, 8, 9, 10] \<rparr>"
  have p: "(0::int) < 8" by simp
  have l: "length (frequency_data ?s) = 10" by simp
  have b: "boundary 10 8 3 = 3" "boundary 10 8 (Suc 3) = 5" "boundary 10 8 4 = 5"
    by (simp_all add: boundary_def)
  note bp = band_partition[OF p, of ?s]
  have k: "(3::nat) < nat 8" by simp
  from bp have "\<forall>k < nat 8.
          calculate_bands 8 ?s ! k =
            (if boundary (length (frequency_data ?s)) (nat 8) k
                < boundary (length (frequency_data ?s)) (nat 8) (Suc k)
             then sum_list (take (boundary (length (frequency_data ?s)) (nat 8) (Suc k)
                                  - boundary (length (frequency_data ?s)) (nat 8) k)
                             (drop (boundary (length (frequency_data ?s)) (nat 8) k)
                                (frequency_data ?s)))
                  / real (boundary (length (frequency_data ?s)) (nat 8) (Suc k)
                          - boundary (length (frequency_data ?s)) (nat 8) k)
             else 0)"
    by (rule conjunct1[OF conjunct2])
  from this[rule_format, OF k] have "calculate_bands 8 ?s ! 3 = 9 / 2"
    unfolding l by (simp add: b)
  moreover from bp have "length (calculate_bands 8 ?s) = nat 8" by (rule conjunct1)
  ultimately show ?thesis using b by simp
qed

text \<open>
  C5 as stated fails: with 10 bins and 8 bands the boundaries increase strictly, no group
  is empty, and a spectrum of ones gives eight band values 1, none of them 0.
\<close>

theorem empty_group_counterexample:
  "analyzer_reachable 20 0
     ((init_analyzer 20 0)\<lparr> frequency_data := [1, 1, 1, 1, 1, 1, 1, 1, 1, 1],
         rms_level := 1, peak_level := 1, rms_history := [1], peak_history := [1],
         envelope_value := 1 \<rparr>)
   \<and> length (frequency_data
        ((init_analyzer 20 0)\<lparr> frequency_data := [1, 1, 1, 1, 1, 1, 1, 1, 1, 1],
         rms_level := 1, peak_level := 1, rms_history := [1], peak_history := [1],
         envelope_value := 1 \<rparr>)) = 10
   \<and> map (boundary 10 8) [0..<9] = [0, 1, 2, 3, 5, 6, 7, 8, 10]
   \<and> calculate_bands 8
        ((init_analyzer 20 0)\<lparr> frequency_data := [1, 1, 1, 1, 1, 1, 1, 1, 1, 1],
         rms_level := 1, peak_level := 1, rms_history := [1], peak_history := [1],
         envelope_value := 1 \<rparr>)
       = [1, 1, 1, 1, 1, 1, 1, 1]"
proof -
  have "analyzer_reachable 20 0
     ((init_analyzer 20 0)\<lparr> frequency_data := [1, 1, 1, 1, 1, 1, 1, 1, 1, 1],
         rms_level := 1, peak_level := 1, rms_history := [1], peak_history := [1],
         envelope_value := 1 \<rparr>)"
    by (rule analyzer_reachable.analyzed[OF analyzer_reachable.fresh after_ten_ones])
  then show ?thesis
    by (simp add: bands_of_ten_ones boundaries_10_8)
qed

end
